theory Spec2Isabelle
  imports Complex_Main "HOL-Library.Monad_Syntax" "HOL-Library.Signed_Division"
begin

section \<open>Memory and keyframed properties\<close>

text \<open>
  A C array reached through a pointer is a list; an index is a C \<open>int\<close>. Reading or
  writing outside the array is undefined behaviour in the source, which the model
  reports as \<open>None\<close>.
\<close>

definition rd :: "'a list \<Rightarrow> int \<Rightarrow> 'a option" where
  "rd xs k = (if 0 \<le> k \<and> k < int (length xs) then Some (xs ! nat k) else None)"

definition wr :: "'a list \<Rightarrow> int \<Rightarrow> 'a \<Rightarrow> 'a list option" where
  "wr xs k v = (if 0 \<le> k \<and> k < int (length xs) then Some (xs[nat k := v]) else None)"

text \<open>
  The class template \<open>LOTAnimatable<T>\<close> is declared in a header that is not among the
  sources. The code under study only calls its methods \<open>value(frameNo)\<close> and, on the
  position timeline, \<open>angle(frameNo)\<close>; both are taken as they come, as functions of the
  frame number.
\<close>

record 'a LOTAnimatable =
  valueAt :: "int \<Rightarrow> 'a"
  angleAt :: "int \<Rightarrow> real"

section \<open>Stroke dash expansion\<close>

text \<open>
  \<open>mDash\<close> holds the declared number of dash entries and the entries themselves. The
  dash values are only copied, never computed with, so their type is left open.
\<close>

record 'f LOTDashProperty =
  mDashArray :: "'f LOTAnimatable list"
  mDashCount :: int

record 'f LOTStrokeData =
  mDash :: "'f LOTDashProperty"

record 'f LOTGStrokeData =
  mGDash :: "'f LOTDashProperty"

text \<open>
  The loop \<open>for (; i < n; i++) array[i] = mDash.mDashArray[i].value(frameNo)\<close>, from
  the loop state \<open>(i, array)\<close> to the state on exit.
\<close>

function dashLoop ::
  "'f LOTDashProperty \<Rightarrow> int \<Rightarrow> int \<Rightarrow> int \<Rightarrow> 'f list \<Rightarrow> (int \<times> 'f list) option" where
  "dashLoop d frameNo n i array =
     (if i < n then
        do {
          a \<leftarrow> rd (mDashArray d) i;
          array' \<leftarrow> wr array i (valueAt a frameNo);
          dashLoop d frameNo n (i + 1) array'
        }
      else Some (i, array))"
  by pat_completeness auto
termination
  by (relation "measure (\<lambda>(d, frameNo, n, i, array). nat (n - i))") auto

text \<open>
  \<open>LOTStrokeData::getDashInfo\<close>. The result is the returned length together with the
  caller's array after the writes. \<open>%\<close> is C's remainder, \<open>smod\<close>.
\<close>

definition LOTStrokeData_getDashInfo ::
  "'f LOTStrokeData \<Rightarrow> int \<Rightarrow> 'f list \<Rightarrow> (int \<times> 'f list) option" where
  "LOTStrokeData_getDashInfo s frameNo array =
     (if mDashCount (mDash s) = 0 then Some (0, array)
      else if mDashCount (mDash s) smod 2 \<noteq> 0 then
        do {
          (i, array1) \<leftarrow> dashLoop (mDash s) frameNo (mDashCount (mDash s)) 0 array;
          Some (mDashCount (mDash s), array1)
        }
      else
        do {
          (i, array1) \<leftarrow> dashLoop (mDash s) frameNo (mDashCount (mDash s) - 1) 0 array;
          prev \<leftarrow> rd array1 (i - 1);
          array2 \<leftarrow> wr array1 i prev;
          a \<leftarrow> rd (mDashArray (mDash s)) i;
          array3 \<leftarrow> wr array2 (i + 1) (valueAt a frameNo);
          Some (mDashCount (mDash s) + 1, array3)
        })"

text \<open>\<open>LOTGStrokeData::getDashInfo\<close>, the gradient stroke's own copy of the function.\<close>

definition LOTGStrokeData_getDashInfo ::
  "'f LOTGStrokeData \<Rightarrow> int \<Rightarrow> 'f list \<Rightarrow> (int \<times> 'f list) option" where
  "LOTGStrokeData_getDashInfo s frameNo array =
     (if mDashCount (mGDash s) = 0 then Some (0, array)
      else if mDashCount (mGDash s) smod 2 \<noteq> 0 then
        do {
          (i, array1) \<leftarrow> dashLoop (mGDash s) frameNo (mDashCount (mGDash s)) 0 array;
          Some (mDashCount (mGDash s), array1)
        }
      else
        do {
          (i, array1) \<leftarrow> dashLoop (mGDash s) frameNo (mDashCount (mGDash s) - 1) 0 array;
          prev \<leftarrow> rd array1 (i - 1);
          array2 \<leftarrow> wr array1 i prev;
          a \<leftarrow> rd (mDashArray (mGDash s)) i;
          array3 \<leftarrow> wr array2 (i + 1) (valueAt a frameNo);
          Some (mDashCount (mGDash s) + 1, array3)
        })"

text \<open>The evaluated values of the first \<open>n\<close> dash entries at a frame.\<close>

definition dashValues :: "'f LOTDashProperty \<Rightarrow> int \<Rightarrow> nat \<Rightarrow> 'f list" where
  "dashValues d frameNo n = map (\<lambda>a. valueAt a frameNo) (take n (mDashArray d))"

subsection \<open>Sample dash data\<close>

definition constAnim :: "'a \<Rightarrow> 'a LOTAnimatable" where
  "constAnim v = \<lparr>valueAt = (\<lambda>_. v), angleAt = (\<lambda>_. 0)\<rparr>"

definition dashNone :: "real LOTStrokeData" where
  "dashNone = \<lparr>mDash = \<lparr>mDashArray = [], mDashCount = 0\<rparr>\<rparr>"

definition dash424 :: "real LOTStrokeData" where
  "dash424 = \<lparr>mDash = \<lparr>mDashArray = [constAnim 4, constAnim 2, constAnim 4], mDashCount = 3\<rparr>\<rparr>"

definition dash42 :: "real LOTStrokeData" where
  "dash42 = \<lparr>mDash = \<lparr>mDashArray = [constAnim 4, constAnim 2], mDashCount = 2\<rparr>\<rparr>"

section \<open>Repeater normalization\<close>

text \<open>
  Modelled from the spec: the scene node classes (\<open>LOTData\<close>, \<open>LOTGroupData\<close> and
  their subclasses) and the enumeration \<open>LOTData::Type\<close>, whose header is not among the
  sources. A scene node is a tagged variant with a node kind tag; layers, shape groups and
  repeaters own an ordered sequence of child nodes. The normalizer reads a node's type
  tag and a group's child list and nothing else. The enumeration is represented by the
  three enumerators the normalizer names and one constructor for all the others;
  everything else a node holds is kept in \<open>mFields\<close>, of an arbitrary type. A node that
  is not a group has no children.
\<close>

datatype Type = Repeater | ShapeGroup | Layer | OtherType nat

datatype 'a LOTData = LOTData (mType: Type) (mFields: 'a) (mChildren: "'a LOTData list")

text \<open>
  \<open>std::make_shared<LOTShapeGroupData>()\<close>: a shape group with no children, its other
  fields as the default constructor leaves them (\<open>dflt\<close>).
\<close>

definition make_shared_LOTShapeGroupData :: "'a \<Rightarrow> 'a LOTData" where
  "make_shared_LOTShapeGroupData dflt = LOTData ShapeGroup dflt []"

text \<open>The tree is mutated in place; the model returns the node with its new child list.\<close>

definition setChildren :: "'a LOTData \<Rightarrow> 'a LOTData list \<Rightarrow> 'a LOTData" where
  "setChildren obj cs = LOTData (mType obj) (mFields obj) cs"

text \<open>
  \<open>LottieRepeaterProcesser\<close>. The loop of \<open>visitChildren\<close> runs a reverse iterator
  \<open>i\<close> over \<open>obj->mChildren\<close>. Its state is the pair of \<open>todo\<close>, the children in
  \<open>[begin, i.base())\<close>, whose last element is the one the iterator stands on, and
  \<open>visited\<close>, the children in \<open>[i.base(), end)\<close>, already passed. On a repeater the
  iterator is advanced once, so that \<open>[begin, i.base())\<close> is \<open>butlast todo\<close>; these
  children are moved to the new group and erased, the group is appended to the
  repeater's children and visited, and the loop is left.
\<close>

function visit :: "'a \<Rightarrow> 'a LOTData \<Rightarrow> 'a LOTData"
  and visitChildren :: "'a \<Rightarrow> 'a LOTData \<Rightarrow> 'a LOTData"
  and visitLoop :: "'a \<Rightarrow> 'a LOTData list \<Rightarrow> 'a LOTData list \<Rightarrow> 'a LOTData list"
where
  "visit dflt obj =
     (case mType obj of
        Repeater \<Rightarrow> visitChildren dflt obj
      | ShapeGroup \<Rightarrow> visitChildren dflt obj
      | Layer \<Rightarrow> visitChildren dflt obj
      | _ \<Rightarrow> obj)"
| "visitChildren dflt obj = setChildren obj (visitLoop dflt (mChildren obj) [])"
| "visitLoop dflt todo visited =
     (if todo = [] then visited
      else
        let child = last todo; moved = butlast todo in
        if mType child = Repeater then
          let shapeGroup = setChildren (make_shared_LOTShapeGroupData dflt) moved;
              repeater = setChildren child (mChildren child @ [visitChildren dflt shapeGroup])
          in repeater # visited
        else visitLoop dflt moved (visit dflt child # visited))"
  by pat_completeness auto
termination
proof -
  have a: "size_list f todo = size_list f (butlast todo) + f (last todo) + 1"
    if "todo \<noteq> []" for f :: "'a LOTData \<Rightarrow> nat" and todo
    using that by (induction todo) auto
  have b: "Suc 0 < 3 * size obj" for obj :: "'a LOTData"
    by (cases obj) simp
  have c: "3 * size_list size (mChildren obj) < Suc (3 * size obj)" for obj :: "'a LOTData"
    by (cases obj) simp
  show ?thesis
    by (relation "measure (\<lambda>x. case x of
            Inl (dflt, obj) \<Rightarrow> 3 * size obj + 2
          | Inr (Inl (dflt, obj)) \<Rightarrow> 3 * size obj + 1
          | Inr (Inr (dflt, todo, visited)) \<Rightarrow> 3 * size_list size todo)")
      (auto simp: a b c setChildren_def make_shared_LOTShapeGroupData_def)
qed

text \<open>\<open>LOTCompositionData::processRepeaterObjects\<close>, on the root layer.\<close>

definition processRepeaterObjects :: "'a \<Rightarrow> 'a LOTData \<Rightarrow> 'a LOTData" where
  "processRepeaterObjects dflt mRootLayer = visit dflt mRootLayer"

text \<open>
  An ordinary shape child: a node that is neither a repeater nor a group nor a layer.
\<close>

definition ordinaryShape :: "'a LOTData \<Rightarrow> bool" where
  "ordinaryShape obj \<longleftrightarrow> mType obj \<noteq> Repeater \<and> mType obj \<noteq> ShapeGroup \<and> mType obj \<noteq> Layer"

text \<open>
  To observe a normalized tree: for every repeater in the tree whose fields are \<open>f\<close>,
  the child lists of the nodes it owns.
\<close>

fun repeaterItems :: "'a \<Rightarrow> 'a LOTData \<Rightarrow> 'a LOTData list list" where
  "repeaterItems f (LOTData t g cs) =
     (if t = Repeater \<and> g = f then map mChildren cs else []) @ concat (map (repeaterItems f) cs)"

subsection \<open>Sample trees\<close>

definition shapeA :: "string LOTData" where "shapeA = LOTData (OtherType 0) ''A'' []"

definition shapeB :: "string LOTData" where "shapeB = LOTData (OtherType 0) ''B'' []"

definition shapeC :: "string LOTData" where "shapeC = LOTData (OtherType 0) ''C'' []"

definition shapeD :: "string LOTData" where "shapeD = LOTData (OtherType 0) ''D'' []"

definition repeaterR :: "string LOTData" where "repeaterR = LOTData Repeater ''R'' []"

definition repeaterR2 :: "string LOTData" where "repeaterR2 = LOTData Repeater ''R2'' []"

definition sampleGroup :: "string LOTData" where
  "sampleGroup = LOTData ShapeGroup ''G'' [shapeA, shapeB, repeaterR, shapeC, shapeD, repeaterR2]"

lemmas sample_tree_defs =
  shapeA_def shapeB_def shapeC_def shapeD_def repeaterR_def repeaterR2_def sampleGroup_def

section \<open>Transform evaluation\<close>

text \<open>
  A C++ \<open>float\<close> is modelled by the real number it denotes. Rounding, overflow and NaN
  are outside the model: the properties below are about which values are combined and in
  which order, and hold of the exact arithmetic.
\<close>

text \<open>
  Modelled from the spec: the point type \<open>VPointF\<close>, whose header is not among the
  sources. A point has two coordinates; its setters replace one coordinate, and the
  division by a scalar (the scale percentage divided by 100), the multiplication by a
  scalar (a value scaled linearly by the multiplier) and the unary minus (the negated
  anchor point) act on each coordinate.
\<close>

datatype VPointF = VPointF (pt_x: real) (pt_y: real)

definition setX :: "VPointF \<Rightarrow> real \<Rightarrow> VPointF" where
  "setX p v = VPointF v (pt_y p)"

definition setY :: "VPointF \<Rightarrow> real \<Rightarrow> VPointF" where
  "setY p v = VPointF (pt_x p) v"

definition VPointF_div :: "VPointF \<Rightarrow> real \<Rightarrow> VPointF" where
  "VPointF_div p c = VPointF (pt_x p / c) (pt_y p / c)"

definition VPointF_mul :: "VPointF \<Rightarrow> real \<Rightarrow> VPointF" where
  "VPointF_mul p c = VPointF (pt_x p * c) (pt_y p * c)"

definition VPointF_neg :: "VPointF \<Rightarrow> VPointF" where
  "VPointF_neg p = VPointF (- pt_x p) (- pt_y p)"

text \<open>
  \<open>VMatrix\<close> is not among the sources either. The transform code builds a matrix by a
  chain of calls \<open>m.translate(..).rotate(..).scale(..)\<close> on a default-constructed
  matrix, each call updating the matrix and returning it. The operations are parameters of
  the model: \<open>vm_new\<close> is the default-constructed matrix, \<open>vm_rotate\<close> the rotation
  called with an angle alone, \<open>vm_rotateAxis\<close> the rotation called with an angle and an
  axis. \<open>chain\<close> applies the calls from left to right. Of the enumeration
  \<open>VMatrix::Axis\<close> the code names \<open>X\<close> and \<open>Y\<close>.
\<close>

datatype Axis = AxisX | AxisY

record 'm VMatrixOps =
  vm_new :: 'm
  vm_translate :: "VPointF \<Rightarrow> 'm \<Rightarrow> 'm"
  vm_rotate :: "real \<Rightarrow> 'm \<Rightarrow> 'm"
  vm_rotateAxis :: "real \<Rightarrow> Axis \<Rightarrow> 'm \<Rightarrow> 'm"
  vm_scale :: "VPointF \<Rightarrow> 'm \<Rightarrow> 'm"

definition chain :: "'m \<Rightarrow> ('m \<Rightarrow> 'm) list \<Rightarrow> 'm" where
  "chain m calls = foldl (\<lambda>m call. call m) m calls"

text \<open>
  Modelled from the spec: the declaration of \<open>LOTTransformData\<close> and of its method
  \<open>ddd()\<close>, whose header is not among the sources. A transform node has keyframed
  position, anchor, scale and rotation, an optional 3-D rotation with separate X, Y and Z
  angles, a flag for separately keyframed X and Y positions, and a cached matrix with the
  static flag. The record holds the fields that the matrix code reads, under the names it
  reads them by. \<open>m3D\<close> is the pointer to the 3-D rotation data, \<open>None\<close> when null;
  3-D is enabled, that is \<open>ddd()\<close> holds, exactly when \<open>m3D\<close> is set, which is the case
  the code dereferences it in.
\<close>

record LOT3DData =
  mRx :: "real LOTAnimatable"
  mRy :: "real LOTAnimatable"
  mRz :: "real LOTAnimatable"

record 'm LOTTransformData =
  mRotation :: "real LOTAnimatable"
  mScale :: "VPointF LOTAnimatable"
  mPosition :: "VPointF LOTAnimatable"
  mX :: "real LOTAnimatable"
  mY :: "real LOTAnimatable"
  mAnchor :: "VPointF LOTAnimatable"
  m3D :: "LOT3DData option"
  mCachedMatrix :: 'm
  mStaticMatrix :: bool
  mSeparate :: bool

text \<open>
  \<open>LOTTransformData::matrixForRepeater\<close>. \<open>std::pow\<close> is a parameter.
\<close>

definition matrixForRepeater ::
  "'m VMatrixOps \<Rightarrow> (real \<Rightarrow> real \<Rightarrow> real) \<Rightarrow> 'm LOTTransformData \<Rightarrow> int \<Rightarrow> real \<Rightarrow> 'm" where
  "matrixForRepeater ops std_pow t frameNo multiplier =
     (let scale = VPointF_div (valueAt (mScale t) frameNo) 100;
          scale = setX scale (std_pow (pt_x scale) multiplier);
          scale = setY scale (std_pow (pt_y scale) multiplier)
      in chain (vm_new ops)
           [vm_translate ops (VPointF_mul (valueAt (mPosition t) frameNo) multiplier),
            vm_rotate ops (valueAt (mRotation t) frameNo * multiplier),
            vm_scale ops scale,
            vm_translate ops (valueAt (mAnchor t) frameNo)])"

text \<open>\<open>LOTTransformData::computeMatrix\<close>.\<close>

definition computeMatrix :: "'m VMatrixOps \<Rightarrow> 'm LOTTransformData \<Rightarrow> int \<Rightarrow> bool \<Rightarrow> 'm" where
  "computeMatrix ops t frameNo autoOrient =
     (let position = valueAt (mPosition t) frameNo;
          position = (if mSeparate t
                      then setY (setX position (valueAt (mX t) frameNo)) (valueAt (mY t) frameNo)
                      else position);
          angle = (if autoOrient then angleAt (mPosition t) frameNo else 0)
      in case m3D t of
           Some d \<Rightarrow>
             chain (vm_new ops)
               [vm_translate ops position,
                vm_rotate ops (valueAt (mRotation t) frameNo),
                vm_rotate ops angle,
                vm_rotate ops (valueAt (mRz d) frameNo),
                vm_rotateAxis ops (valueAt (mRy d) frameNo) AxisY,
                vm_rotateAxis ops (valueAt (mRx d) frameNo) AxisX,
                vm_scale ops (VPointF_div (valueAt (mScale t) frameNo) 100),
                vm_translate ops (VPointF_neg (valueAt (mAnchor t) frameNo))]
         | None \<Rightarrow>
             chain (vm_new ops)
               [vm_translate ops position,
                vm_rotate ops (valueAt (mRotation t) frameNo),
                vm_rotate ops angle,
                vm_scale ops (VPointF_div (valueAt (mScale t) frameNo) 100),
                vm_translate ops (VPointF_neg (valueAt (mAnchor t) frameNo))])"

text \<open>\<open>LOTTransformData::matrix\<close>.\<close>

definition matrix :: "'m VMatrixOps \<Rightarrow> 'm LOTTransformData \<Rightarrow> int \<Rightarrow> bool \<Rightarrow> 'm" where
  "matrix ops t frameNo autoOrient =
     (if mStaticMatrix t then mCachedMatrix t else computeMatrix ops t frameNo autoOrient)"

text \<open>
  \<open>LOTTransformData::cacheMatrix\<close> calls \<open>computeMatrix(0)\<close>; the default value of the
  omitted \<open>autoOrient\<close> argument is declared in the missing header and is a parameter.
\<close>

definition cacheMatrix :: "'m VMatrixOps \<Rightarrow> bool \<Rightarrow> 'm LOTTransformData \<Rightarrow> 'm LOTTransformData" where
  "cacheMatrix ops autoOrientDefault t = t\<lparr>mCachedMatrix := computeMatrix ops t 0 autoOrientDefault\<rparr>"

text \<open>
  To state an order of composition: a list of steps, applied from left to right to the
  default-constructed matrix.
\<close>

datatype MatrixStep = Translate VPointF | Rotate real | RotateAxis real Axis | Scale VPointF

fun applyStep :: "'m VMatrixOps \<Rightarrow> 'm \<Rightarrow> MatrixStep \<Rightarrow> 'm" where
  "applyStep ops m (Translate p) = vm_translate ops p m"
| "applyStep ops m (Rotate a) = vm_rotate ops a m"
| "applyStep ops m (RotateAxis a ax) = vm_rotateAxis ops a ax m"
| "applyStep ops m (Scale p) = vm_scale ops p m"

definition composeSteps :: "'m VMatrixOps \<Rightarrow> MatrixStep list \<Rightarrow> 'm" where
  "composeSteps ops steps = foldl (applyStep ops) (vm_new ops) steps"

text \<open>
  The order of composition as the specification words it: translate to the position (the
  separately keyframed X and Y when \<open>mSeparate\<close> is set), rotate by the rotation angle,
  then the steps \<open>orient\<close> of the auto-orientation, then with 3-D data the rotations by
  the Z, the Y and the X angle, then scale by the scale over 100, then translate by the
  negated anchor.
\<close>

definition transformSteps ::
  "'m LOTTransformData \<Rightarrow> int \<Rightarrow> MatrixStep list \<Rightarrow> MatrixStep list" where
  "transformSteps t frameNo orient =
     [Translate (if mSeparate t then VPointF (valueAt (mX t) frameNo) (valueAt (mY t) frameNo)
                 else valueAt (mPosition t) frameNo),
      Rotate (valueAt (mRotation t) frameNo)]
     @ orient
     @ (case m3D t of
          Some d \<Rightarrow> [Rotate (valueAt (mRz d) frameNo),
                     RotateAxis (valueAt (mRy d) frameNo) AxisY,
                     RotateAxis (valueAt (mRx d) frameNo) AxisX]
        | None \<Rightarrow> [])
     @ [Scale (VPointF_div (valueAt (mScale t) frameNo) 100),
        Translate (VPointF_neg (valueAt (mAnchor t) frameNo))]"

subsection \<open>Sample transform\<close>

text \<open>
  An instance of the matrix operations that records the calls made, a call of a rotation
  by the angle zero leaving the matrix as it is.
\<close>

definition traceOps :: "MatrixStep list VMatrixOps" where
  "traceOps =
     \<lparr>vm_new = [],
      vm_translate = (\<lambda>p m. m @ [Translate p]),
      vm_rotate = (\<lambda>a m. if a = 0 then m else m @ [Rotate a]),
      vm_rotateAxis = (\<lambda>a ax m. if a = 0 then m else m @ [RotateAxis a ax]),
      vm_scale = (\<lambda>p m. m @ [Scale p])\<rparr>"

definition sampleTransform :: "MatrixStep list LOTTransformData" where
  "sampleTransform =
     \<lparr>mRotation = \<lparr>valueAt = (\<lambda>f. 30 + real_of_int f), angleAt = (\<lambda>_. 0)\<rparr>,
      mScale = constAnim (VPointF 200 50),
      mPosition = \<lparr>valueAt = (\<lambda>f. VPointF (10 * real_of_int f) 20), angleAt = (\<lambda>_. 45)\<rparr>,
      mX = constAnim 7, mY = constAnim 8,
      mAnchor = constAnim (VPointF 1 2),
      m3D = Some \<lparr>mRx = constAnim 3, mRy = constAnim 4, mRz = constAnim 5\<rparr>,
      mCachedMatrix = [],
      mStaticMatrix = False,
      mSeparate = False\<rparr>"

section \<open>Gradient stops\<close>

text \<open>
  \<open>LottieColor\<close> and its method \<open>toColor\<close> are declared in the missing header. A
  colour stop keeps the call that produces its colour: \<open>ToColor c a\<close> stands for
  \<open>c.toColor(a)\<close> and \<open>ToColorDefault c\<close> for \<open>c.toColor()\<close>.
\<close>

datatype LottieColor = LottieColor real real real

datatype VColor = ToColor LottieColor real | ToColorDefault LottieColor

type_synonym VGradientStops = "(real \<times> VColor) list"

text \<open>
  \<open>LottieGradient\<close> holds the flat buffer \<open>mGradient\<close>; \<open>LOTGradient\<close> holds the
  keyframed gradient data, a member also called \<open>mGradient\<close> in the source, and the
  declared number of colour stops.
\<close>

record LottieGradient =
  mGradient :: "real list"

record LOTGradient =
  mGradientAnim :: "LottieGradient LOTAnimatable"
  mColorPoints :: int

text \<open>
  The sizes and counts are C \<open>int\<close>s. A value that does not fit 32 bits is a signed
  overflow or an out-of-range conversion, reported as \<open>None\<close>.
\<close>

definition c_int :: "int \<Rightarrow> int option" where
  "c_int v = (if - (2 ^ 31) \<le> v \<and> v < 2 ^ 31 then Some v else None)"

text \<open>
  The inner loop \<open>for (; j < opacityArraySize; j += 2)\<close> of \<open>populate\<close>, from the state
  \<open>(j, stops)\<close> to the state when the loop is left, by \<open>break\<close> or by its condition.
  \<open>opacityPtr\<close> is the index in the buffer at which the opacity pairs start.
\<close>

function opacityLoop ::
  "real list \<Rightarrow> int \<Rightarrow> int \<Rightarrow> real \<Rightarrow> LottieColor \<Rightarrow> int \<Rightarrow> VGradientStops
     \<Rightarrow> (int \<times> VGradientStops) option" where
  "opacityLoop buf opacityPtr opacityArraySize colorStop color j stops =
     (if j < opacityArraySize then
        do {
          opacityStop \<leftarrow> rd buf (opacityPtr + j);
          if opacityStop < colorStop then
            do {
              op \<leftarrow> rd buf (opacityPtr + (j + 1));
              opacityLoop buf opacityPtr opacityArraySize colorStop color (j + 2)
                (stops @ [(opacityStop, ToColor color op)])
            }
          else if j = 0 then
            do {
              op \<leftarrow> rd buf (opacityPtr + (j + 1));
              Some (j + 2, stops @ [(colorStop, ToColor color op)])
            }
          else
            do {
              s0 \<leftarrow> rd buf (opacityPtr + (j - 2));
              s1 \<leftarrow> rd buf (opacityPtr + j);
              let progress = (colorStop - s0) / (s1 - s0);
              o0 \<leftarrow> rd buf (opacityPtr + (j - 1));
              o1 \<leftarrow> rd buf (opacityPtr + (j + 1));
              let opacity = o0 + progress * (o1 - o0);
              Some (j + 2, stops @ [(colorStop, ToColor color opacity)])
            }
        }
      else Some (j, stops))"
  by pat_completeness auto
termination
  by (relation "measure (\<lambda>(buf, opacityPtr, opacityArraySize, colorStop, color, j, stops).
        nat (opacityArraySize - j))") auto

declare opacityLoop.simps [simp del]

text \<open>
  The outer loop \<open>for (int i = 0; i < colorPoints; i++)\<close>, with the state
  \<open>(i, ptr, j, stops)\<close>. \<open>ptr\<close> is advanced at the end of the loop body, so the
  \<open>continue\<close> of the branch taken once the opacity pairs are used up leaves it where
  it is.
\<close>

function colorLoop ::
  "real list \<Rightarrow> int \<Rightarrow> int \<Rightarrow> int \<Rightarrow> int \<Rightarrow> int \<Rightarrow> int \<Rightarrow> VGradientStops
     \<Rightarrow> VGradientStops option" where
  "colorLoop buf colorPoints opacityPtr opacityArraySize i ptr j stops =
     (if i < colorPoints then
        do {
          colorStop \<leftarrow> rd buf ptr;
          r \<leftarrow> rd buf (ptr + 1);
          g \<leftarrow> rd buf (ptr + 2);
          b \<leftarrow> rd buf (ptr + 3);
          let color = LottieColor r g b;
          if opacityArraySize \<noteq> 0 then
            if j = opacityArraySize then
              do {
                stop1 \<leftarrow> rd buf (opacityPtr + (j - 4));
                op1 \<leftarrow> rd buf (opacityPtr + (j - 3));
                stop2 \<leftarrow> rd buf (opacityPtr + (j - 2));
                op2 \<leftarrow> rd buf (opacityPtr + (j - 1));
                if colorStop > stop2 then
                  colorLoop buf colorPoints opacityPtr opacityArraySize (i + 1) ptr j
                    (stops @ [(colorStop, ToColor color op2)])
                else
                  let progress = (colorStop - stop1) / (stop2 - stop1);
                      opacity = op1 + progress * (op2 - op1)
                  in colorLoop buf colorPoints opacityPtr opacityArraySize (i + 1) ptr j
                       (stops @ [(colorStop, ToColor color opacity)])
              }
            else
              do {
                (j', stops') \<leftarrow>
                  opacityLoop buf opacityPtr opacityArraySize colorStop color j stops;
                colorLoop buf colorPoints opacityPtr opacityArraySize (i + 1) (ptr + 4) j' stops'
              }
          else
            colorLoop buf colorPoints opacityPtr opacityArraySize (i + 1) (ptr + 4) j
              (stops @ [(colorStop, ToColorDefault color)])
        }
      else Some stops)"
  by pat_completeness auto
termination
  by (relation "measure (\<lambda>(buf, colorPoints, opacityPtr, opacityArraySize, i, ptr, j, stops).
        nat (colorPoints - i))") auto

declare colorLoop.simps [simp del]

text \<open>\<open>LOTGradient::populate\<close>; the result is the content of \<open>stops\<close> on return.\<close>

definition populate :: "LOTGradient \<Rightarrow> int \<Rightarrow> VGradientStops option" where
  "populate g frameNo =
     (let gradData = valueAt (mGradientAnim g) frameNo in
      do {
        size \<leftarrow> c_int (int (length (mGradient gradData)));
        let buf = mGradient gradData;
        let colorPoints = mColorPoints g;
        let colorPoints = (if colorPoints = - 1 then size sdiv 4 else colorPoints);
        colorBytes \<leftarrow> c_int (colorPoints * 4);
        opacityArraySize \<leftarrow> c_int (size - colorBytes);
        let opacityPtr = colorBytes;
        colorLoop buf colorPoints opacityPtr opacityArraySize 0 0 0 []
      })"

text \<open>
  To state properties of a buffer of \<open>n\<close> colour stops and \<open>k\<close> opacity pairs: the
  positions of the colour stops and of the opacity stops, and the stop made from the
  \<open>a\<close>-th colour quadruple alone.
\<close>

definition colorStops :: "real list \<Rightarrow> nat \<Rightarrow> real list" where
  "colorStops buf n = map (\<lambda>a. buf ! (4 * a)) [0..<n]"

definition opacityStops :: "real list \<Rightarrow> nat \<Rightarrow> nat \<Rightarrow> real list" where
  "opacityStops buf n k = map (\<lambda>a. buf ! (4 * n + 2 * a)) [0..<k]"

definition plainStop :: "real list \<Rightarrow> nat \<Rightarrow> real \<times> VColor" where
  "plainStop buf a =
     (buf ! (4 * a),
      ToColorDefault (LottieColor (buf ! (4 * a + 1)) (buf ! (4 * a + 2)) (buf ! (4 * a + 3))))"

text \<open>
  The invariant of the loops: the positions emitted so far ascend and lie in \<open>[0,1]\<close>,
  and all of them are at most a given bound.
\<close>

definition stopsOk :: "VGradientStops \<Rightarrow> bool" where
  "stopsOk stops \<longleftrightarrow> sorted (map fst stops) \<and> (\<forall>s \<in> set stops. 0 \<le> fst s \<and> fst s \<le> 1)"

definition below :: "VGradientStops \<Rightarrow> real \<Rightarrow> bool" where
  "below stops v \<longleftrightarrow> (\<forall>s \<in> set stops. fst s \<le> v)"

text \<open>
  The colour a stop was made from, whatever its opacity, and the colour of the \<open>a\<close>-th
  colour quadruple of a buffer.
\<close>

fun stopColor :: "VColor \<Rightarrow> LottieColor" where
  "stopColor (ToColor c a) = c"
| "stopColor (ToColorDefault c) = c"

definition colorAt :: "real list \<Rightarrow> nat \<Rightarrow> LottieColor" where
  "colorAt buf a = LottieColor (buf ! (4 * a + 1)) (buf ! (4 * a + 2)) (buf ! (4 * a + 3))"

subsection \<open>Sample gradients\<close>

definition gradientOf :: "real list \<Rightarrow> int \<Rightarrow> LOTGradient" where
  "gradientOf buf n = \<lparr>mGradientAnim = constAnim \<lparr>mGradient = buf\<rparr>, mColorPoints = n\<rparr>"

definition mergeSample :: "real list" where
  "mergeSample = [0, 1, 0, 0, 1 / 2, 0, 1, 0, 1, 0, 0, 1, 0, 1, 1 / 2, 1 / 2, 1, 0]"

section \<open>Cubic Bezier segments\<close>

text \<open>
  The coordinates of a \<open>VBezier\<close> and the parameter \<open>t\<close> are C++ \<open>float\<close>s, and the
  Bezier code computes with them. Their arithmetic is a parameter of the model, so that
  what is proved of the code holds of binary32 arithmetic, with its rounding, its overflow
  and its NaN, as of any other. \<open>f_add\<close>, \<open>f_sub\<close> and \<open>f_mul\<close> are the operations on
  two \<open>float\<close>s; \<open>f_half\<close> is \<open>e * .5\<close>, the product with the \<open>double\<close> constant stored
  to a \<open>float\<close>; \<open>f_div2\<close> is \<open>e / 2\<close>; \<open>f_one_minus\<close> is \<open>1. - t\<close> stored to a
  \<open>float\<close>.
\<close>

record 'f FloatOps =
  f_add :: "'f \<Rightarrow> 'f \<Rightarrow> 'f"
  f_sub :: "'f \<Rightarrow> 'f \<Rightarrow> 'f"
  f_mul :: "'f \<Rightarrow> 'f \<Rightarrow> 'f"
  f_half :: "'f \<Rightarrow> 'f"
  f_div2 :: "'f \<Rightarrow> 'f"
  f_one_minus :: "'f \<Rightarrow> 'f"

text \<open>
  \<open>VBezier\<close>. The methods that write through a pointer take the object pointed to and
  return it updated; the objects passed are assumed distinct from each other and from the
  receiver. A point returned by a method is the pair of its coordinates.
\<close>

record 'f VBezier =
  x1 :: 'f
  y1 :: 'f
  x2 :: 'f
  y2 :: 'f
  x3 :: 'f
  y3 :: 'f
  x4 :: 'f
  y4 :: 'f

definition pt1 :: "'f VBezier \<Rightarrow> 'f \<times> 'f" where
  "pt1 this = (x1 this, y1 this)"



definition pt4 :: "'f VBezier \<Rightarrow> 'f \<times> 'f" where
  "pt4 this = (x4 this, y4 this)"

text \<open>\<open>VBezier::pointAt\<close>.\<close>

definition pointAt :: "'f FloatOps \<Rightarrow> 'f VBezier \<Rightarrow> 'f \<Rightarrow> 'f \<times> 'f" where
  "pointAt ops this t =
     (let m_t = f_one_minus ops t;
          x = (let a = f_add ops (f_mul ops (x1 this) m_t) (f_mul ops (x2 this) t);
                   b = f_add ops (f_mul ops (x2 this) m_t) (f_mul ops (x3 this) t);
                   c = f_add ops (f_mul ops (x3 this) m_t) (f_mul ops (x4 this) t);
                   a = f_add ops (f_mul ops a m_t) (f_mul ops b t);
                   b = f_add ops (f_mul ops b m_t) (f_mul ops c t)
               in f_add ops (f_mul ops a m_t) (f_mul ops b t));
          y = (let a = f_add ops (f_mul ops (y1 this) m_t) (f_mul ops (y2 this) t);
                   b = f_add ops (f_mul ops (y2 this) m_t) (f_mul ops (y3 this) t);
                   c = f_add ops (f_mul ops (y3 this) m_t) (f_mul ops (y4 this) t);
                   a = f_add ops (f_mul ops a m_t) (f_mul ops b t);
                   b = f_add ops (f_mul ops b m_t) (f_mul ops c t)
               in f_add ops (f_mul ops a m_t) (f_mul ops b t))
      in (x, y))"

text \<open>
  \<open>VBezier::split\<close>: the receiver is unchanged, the two halves are written to
  \<open>firstHalf\<close> and \<open>secondHalf\<close>. The method takes no parameter.
\<close>

definition VBezier_split ::
  "'f FloatOps \<Rightarrow> 'f VBezier \<Rightarrow> 'f VBezier \<Rightarrow> 'f VBezier \<Rightarrow> 'f VBezier \<times> 'f VBezier" where
  "VBezier_split ops this firstHalf secondHalf =
     (let c = f_half ops (f_add ops (x2 this) (x3 this));
          firstHalf = firstHalf\<lparr>x2 := f_half ops (f_add ops (x1 this) (x2 this))\<rparr>;
          secondHalf = secondHalf\<lparr>x3 := f_half ops (f_add ops (x3 this) (x4 this))\<rparr>;
          firstHalf = firstHalf\<lparr>x1 := x1 this\<rparr>;
          secondHalf = secondHalf\<lparr>x4 := x4 this\<rparr>;
          firstHalf = firstHalf\<lparr>x3 := f_half ops (f_add ops (x2 firstHalf) c)\<rparr>;
          secondHalf = secondHalf\<lparr>x2 := f_half ops (f_add ops (x3 secondHalf) c)\<rparr>;
          secondHalf = secondHalf\<lparr>x1 := f_half ops (f_add ops (x3 firstHalf) (x2 secondHalf))\<rparr>;
          firstHalf = firstHalf\<lparr>x4 := x1 secondHalf\<rparr>;
          c = f_div2 ops (f_add ops (y2 this) (y3 this));
          firstHalf = firstHalf\<lparr>y2 := f_half ops (f_add ops (y1 this) (y2 this))\<rparr>;
          secondHalf = secondHalf\<lparr>y3 := f_half ops (f_add ops (y3 this) (y4 this))\<rparr>;
          firstHalf = firstHalf\<lparr>y1 := y1 this\<rparr>;
          secondHalf = secondHalf\<lparr>y4 := y4 this\<rparr>;
          firstHalf = firstHalf\<lparr>y3 := f_half ops (f_add ops (y2 firstHalf) c)\<rparr>;
          secondHalf = secondHalf\<lparr>y2 := f_half ops (f_add ops (y3 secondHalf) c)\<rparr>;
          secondHalf = secondHalf\<lparr>y1 := f_half ops (f_add ops (y3 firstHalf) (y2 secondHalf))\<rparr>;
          firstHalf = firstHalf\<lparr>y4 := y1 secondHalf\<rparr>
      in (firstHalf, secondHalf))"

text \<open>
  \<open>VBezier::parameterSplitLeft\<close>: the receiver becomes the right part and \<open>left\<close> the
  left part; the result is the pair of the receiver and \<open>left\<close> after the call.
\<close>

definition parameterSplitLeft ::
  "'f FloatOps \<Rightarrow> 'f VBezier \<Rightarrow> 'f \<Rightarrow> 'f VBezier \<Rightarrow> 'f VBezier \<times> 'f VBezier" where
  "parameterSplitLeft ops this t left =
     (let left = left\<lparr>x1 := x1 this\<rparr>;
          left = left\<lparr>y1 := y1 this\<rparr>;
          left = left\<lparr>x2 := f_add ops (x1 this) (f_mul ops t (f_sub ops (x2 this) (x1 this)))\<rparr>;
          left = left\<lparr>y2 := f_add ops (y1 this) (f_mul ops t (f_sub ops (y2 this) (y1 this)))\<rparr>;
          left = left\<lparr>x3 := f_add ops (x2 this) (f_mul ops t (f_sub ops (x3 this) (x2 this)))\<rparr>;
          left = left\<lparr>y3 := f_add ops (y2 this) (f_mul ops t (f_sub ops (y3 this) (y2 this)))\<rparr>;
          this = this\<lparr>x3 := f_add ops (x3 this) (f_mul ops t (f_sub ops (x4 this) (x3 this)))\<rparr>;
          this = this\<lparr>y3 := f_add ops (y3 this) (f_mul ops t (f_sub ops (y4 this) (y3 this)))\<rparr>;
          this = this\<lparr>x2 := f_add ops (x3 left) (f_mul ops t (f_sub ops (x3 this) (x3 left)))\<rparr>;
          this = this\<lparr>y2 := f_add ops (y3 left) (f_mul ops t (f_sub ops (y3 this) (y3 left)))\<rparr>;
          left = left\<lparr>x3 := f_add ops (x2 left) (f_mul ops t (f_sub ops (x3 left) (x2 left)))\<rparr>;
          left = left\<lparr>y3 := f_add ops (y2 left) (f_mul ops t (f_sub ops (y3 left) (y2 left)))\<rparr>;
          this = this\<lparr>x1 := f_add ops (x3 left) (f_mul ops t (f_sub ops (x2 this) (x3 left)))\<rparr>;
          left = left\<lparr>x4 := x1 this\<rparr>;
          this = this\<lparr>y1 := f_add ops (y3 left) (f_mul ops t (f_sub ops (y2 this) (y3 left)))\<rparr>;
          left = left\<lparr>y4 := y1 this\<rparr>
      in (this, left))"

subsection \<open>Sample arithmetics and curves\<close>








text \<open>
  The exact arithmetic of the real numbers, which no \<open>float\<close> computes with; it serves
  to say what the subdivision is up to rounding.
\<close>

definition exactOps :: "real FloatOps" where
  "exactOps =
     \<lparr>f_add = (+), f_sub = (-), f_mul = (*),
      f_half = (\<lambda>a. a * 0.5), f_div2 = (\<lambda>a. a / 2), f_one_minus = (\<lambda>t. 1 - t)\<rparr>"

text \<open>The nested interpolation that \<open>pointAt\<close> computes for one coordinate.\<close>

definition lerp3 :: "real \<Rightarrow> real \<Rightarrow> real \<Rightarrow> real \<Rightarrow> real \<Rightarrow> real" where
  "lerp3 p q r s t =
     ((p * (1 - t) + q * t) * (1 - t) + (q * (1 - t) + r * t) * t) * (1 - t)
     + ((q * (1 - t) + r * t) * (1 - t) + (r * (1 - t) + s * t) * t) * t"



section \<open>Properties of the dash expansion\<close>

lemma dashLoop_result:
  "0 \<le> i \<Longrightarrow> i \<le> n \<Longrightarrow> n \<le> int (length (mDashArray d)) \<Longrightarrow> n \<le> int (length array) \<Longrightarrow>
   dashLoop d f n i array =
     Some (n, take (nat i) array @ drop (nat i) (dashValues d f (nat n)) @ drop (nat n) array)"
proof (induction d f n i array rule: dashLoop.induct)
  case (1 d f n i array)
  show ?case
  proof (cases "i < n")
    case False
    with "1.prems" have "i = n" by simp
    with "1.prems" show ?thesis by (simp add: dashValues_def)
  next
    case True
    define v where "v = valueAt (mDashArray d ! nat i) f"
    have r: "rd (mDashArray d) i = Some (mDashArray d ! nat i)"
      using True "1.prems" by (simp add: rd_def)
    have w: "wr array i v = Some (array[nat i := v])"
      using True "1.prems" by (simp add: wr_def)
    have ih: "dashLoop d f n (i + 1) (array[nat i := v]) =
      Some (n, take (nat (i + 1)) (array[nat i := v]) @ drop (nat (i + 1)) (dashValues d f (nat n))
               @ drop (nat n) (array[nat i := v]))"
      using "1.IH"[OF True r w[unfolded v_def]] True "1.prems" by (simp add: v_def)
    have s: "nat (i + 1) = Suc (nat i)" using "1.prems" by simp
    have li: "nat i < length array" "nat i < nat n" "nat n \<le> length (mDashArray d)"
      using True "1.prems" by simp_all
    have t: "take (Suc (nat i)) (array[nat i := v]) = take (nat i) array @ [v]"
      using li by (simp add: take_Suc_conv_app_nth)
    have d1: "drop (nat n) (array[nat i := v]) = drop (nat n) array"
      using li by simp
    have d2: "drop (nat i) (dashValues d f (nat n)) = v # drop (Suc (nat i)) (dashValues d f (nat n))"
      using li unfolding dashValues_def v_def
      by (simp add: Cons_nth_drop_Suc[symmetric])
    have "dashLoop d f n i array = dashLoop d f n (i + 1) (array[nat i := v])"
      using True r w by (subst dashLoop.simps) (simp add: v_def)
    then show ?thesis
      by (simp only: ih s t d1 d2 append_assoc append_Cons append_Nil)
  qed
qed

lemma smod2_int: "(n::int) smod 2 \<noteq> 0 \<longleftrightarrow> odd n"
  by (auto simp: smod_int_alt_def sgn_if abs_if elim!: evenE oddE) presburger+

text \<open>
  C6. \<open>getDashInfo\<close> returns 0 and writes nothing when the declared dash count is zero.
  For an odd count \<open>n\<close> it writes the evaluated values of the \<open>n\<close> entries and returns
  \<open>n\<close>. For an even count \<open>n\<close> it writes the first \<open>n - 1\<close> evaluated values, then a
  copy of the value at position \<open>n - 2\<close> (the second-to-last one), then the evaluated
  value of the last entry, and returns \<open>n + 1\<close>. The declared count must not exceed the
  number of entries, and the caller's array must have room for what is written.
\<close>

theorem getDashInfo_cases:
  fixes s :: "'f LOTStrokeData"
  shows "(mDashCount (mDash s) = 0 \<longrightarrow> LOTStrokeData_getDashInfo s frameNo array = Some (0, array)) \<and>
    (0 < mDashCount (mDash s) \<and> odd (mDashCount (mDash s)) \<and>
     mDashCount (mDash s) \<le> int (length (mDashArray (mDash s))) \<and>
     mDashCount (mDash s) \<le> int (length array) \<longrightarrow>
       LOTStrokeData_getDashInfo s frameNo array =
         Some (mDashCount (mDash s),
               dashValues (mDash s) frameNo (nat (mDashCount (mDash s)))
                 @ drop (nat (mDashCount (mDash s))) array)) \<and>
    (0 < mDashCount (mDash s) \<and> even (mDashCount (mDash s)) \<and>
     mDashCount (mDash s) \<le> int (length (mDashArray (mDash s))) \<and>
     mDashCount (mDash s) + 1 \<le> int (length array) \<longrightarrow>
       LOTStrokeData_getDashInfo s frameNo array =
         Some (mDashCount (mDash s) + 1,
               take (nat (mDashCount (mDash s)) - 1)
                    (dashValues (mDash s) frameNo (nat (mDashCount (mDash s))))
                 @ [dashValues (mDash s) frameNo (nat (mDashCount (mDash s)))
                      ! (nat (mDashCount (mDash s)) - 2),
                    dashValues (mDash s) frameNo (nat (mDashCount (mDash s)))
                      ! (nat (mDashCount (mDash s)) - 1)]
                 @ drop (nat (mDashCount (mDash s)) + 1) array))"
proof -
  define n where "n = mDashCount (mDash s)"
  define vals where "vals = dashValues (mDash s) frameNo (nat (mDashCount (mDash s)))"
  have "(n = 0 \<longrightarrow> LOTStrokeData_getDashInfo s frameNo array = Some (0, array)) \<and>
    (0 < n \<and> odd n \<and> n \<le> int (length (mDashArray (mDash s))) \<and> n \<le> int (length array) \<longrightarrow>
       LOTStrokeData_getDashInfo s frameNo array = Some (n, vals @ drop (nat n) array)) \<and>
    (0 < n \<and> even n \<and> n \<le> int (length (mDashArray (mDash s))) \<and> n + 1 \<le> int (length array) \<longrightarrow>
       LOTStrokeData_getDashInfo s frameNo array =
         Some (n + 1, take (nat n - 1) vals @ [vals ! (nat n - 2), vals ! (nat n - 1)]
                        @ drop (nat n + 1) array))"
proof (intro conjI impI)
  assume "n = 0"
  then show "LOTStrokeData_getDashInfo s frameNo array = Some (0, array)"
    by (simp add: LOTStrokeData_getDashInfo_def n_def)
next
  assume a: "0 < n \<and> odd n \<and> n \<le> int (length (mDashArray (mDash s))) \<and> n \<le> int (length array)"
  then have l: "dashLoop (mDash s) frameNo n 0 array = Some (n, vals @ drop (nat n) array)"
    using dashLoop_result [of 0 n "mDash s" array frameNo] by (simp add: vals_def n_def)
  from a have "n smod 2 \<noteq> 0" by (simp add: smod2_int)
  with a l show "LOTStrokeData_getDashInfo s frameNo array = Some (n, vals @ drop (nat n) array)"
    by (simp add: LOTStrokeData_getDashInfo_def n_def [symmetric])
next
  assume a: "0 < n \<and> even n \<and> n \<le> int (length (mDashArray (mDash s))) \<and> n + 1 \<le> int (length array)"
  then have n2: "2 \<le> n" by presburger
  define k where "k = nat n - 1"
  have k: "nat n = Suc k" "nat (n - 1) = k" "n - 1 = int k" "0 < k" "n = int k + 1"
    using n2 by (simp_all add: k_def)
  define pre where "pre = dashValues (mDash s) frameNo k"
  have lv: "length vals = Suc k" "length pre = k"
    using a k by (simp_all add: vals_def pre_def dashValues_def n_def [symmetric])
  have pre: "pre = take k vals"
    by (simp add: pre_def vals_def dashValues_def n_def [symmetric] k take_map)
  define array1 where "array1 = pre @ drop k array"
  have l: "dashLoop (mDash s) frameNo (n - 1) 0 array = Some (n - 1, array1)"
    using dashLoop_result [of 0 "n - 1" "mDash s" array frameNo] a n2
    by (simp add: array1_def pre_def k)
  have la: "length array1 = length array" "Suc k < length array"
    using a k lv by (simp_all add: array1_def)
  have r1: "rd array1 (n - 1 - 1) = Some (vals ! (k - 1))"
    using k lv la by (simp add: rd_def array1_def pre nth_append nat_diff_distrib')
  have w1: "wr array1 (n - 1) (vals ! (k - 1)) = Some (pre @ vals ! (k - 1) # drop (Suc k) array)"
    using k lv la
    by (simp add: wr_def array1_def list_update_append Cons_nth_drop_Suc [symmetric]
        del: of_nat_diff)
  have r2: "rd (mDashArray (mDash s)) (n - 1) = Some (mDashArray (mDash s) ! k)"
    using a k by (simp add: rd_def)
  have vk: "valueAt (mDashArray (mDash s) ! k) frameNo = vals ! k"
    using a k by (simp add: vals_def dashValues_def n_def [symmetric])
  have w2: "wr (pre @ vals ! (k - 1) # drop (Suc k) array) (n - 1 + 1) (vals ! k) =
      Some (pre @ [vals ! (k - 1), vals ! k] @ drop (Suc (Suc k)) array)"
    using k lv la
    by (simp add: wr_def list_update_append Cons_nth_drop_Suc [symmetric] nat_add_distrib)
  from a have ev: "\<not> n smod 2 \<noteq> 0" by (simp add: smod2_int)
  have "LOTStrokeData_getDashInfo s frameNo array =
      Some (n + 1, pre @ [vals ! (k - 1), vals ! k] @ drop (Suc (Suc k)) array)"
    using a ev l r1 w1 r2 w2
    by (simp add: LOTStrokeData_getDashInfo_def n_def [symmetric] vk)
  then show "LOTStrokeData_getDashInfo s frameNo array =
         Some (n + 1, take (nat n - 1) vals @ [vals ! (nat n - 2), vals ! (nat n - 1)]
                        @ drop (nat n + 1) array)"
    using k by (simp add: pre numeral_2_eq_2)
  qed
  then show ?thesis unfolding n_def vals_def .
qed

theorem getDashInfo_cases_witness:
  "mDashCount (mDash dashNone) = 0 \<and>
   LOTStrokeData_getDashInfo dashNone 7 [0, 0] = Some (0, [0, 0]) \<and>
   0 < mDashCount (mDash dash424) \<and> odd (mDashCount (mDash dash424)) \<and>
   LOTStrokeData_getDashInfo dash424 7 [0, 0, 0, 0, 0, 0] = Some (3, [4, 2, 4, 0, 0, 0]) \<and>
   0 < mDashCount (mDash dash42) \<and> even (mDashCount (mDash dash42)) \<and>
   LOTStrokeData_getDashInfo dash42 7 [0, 0, 0, 0, 0, 0] = Some (3, [4, 4, 2, 0, 0, 0])"
  using getDashInfo_cases [of dashNone 7 "[0, 0]"]
    getDashInfo_cases [of dash424 7 "[0, 0, 0, 0, 0, 0]"]
    getDashInfo_cases [of dash42 7 "[0, 0, 0, 0, 0, 0]"]
  by (simp add: dashNone_def dash424_def dash42_def dashValues_def constAnim_def)

text \<open>
  C10. The solid stroke's and the gradient stroke's \<open>getDashInfo\<close> agree on the same
  dash data, frame and array: same returned length, same array contents, and the same
  undefined cases.
\<close>

theorem getDashInfo_stroke_gstroke:
  "LOTGStrokeData_getDashInfo \<lparr>mGDash = d\<rparr> frameNo array =
   LOTStrokeData_getDashInfo \<lparr>mDash = d\<rparr> frameNo array"
  by (simp add: LOTGStrokeData_getDashInfo_def LOTStrokeData_getDashInfo_def)

section \<open>Properties of the repeater normalization\<close>

lemma visit_ordinaryShape: "ordinaryShape obj \<Longrightarrow> visit d obj = obj"
  by (cases "mType obj") (simp_all add: ordinaryShape_def)

lemma visitLoop_snoc:
  "visitLoop d (pre @ [c]) visited =
     (if mType c = Repeater then
        setChildren c (mChildren c @ [visitChildren d (LOTData ShapeGroup d pre)]) # visited
      else visitLoop d pre (visit d c # visited))"
  by (subst visitLoop.simps) (simp add: Let_def setChildren_def make_shared_LOTShapeGroupData_def)

lemma visitLoop_no_repeater:
  "\<forall>c \<in> set cs. mType c \<noteq> Repeater \<Longrightarrow> visitLoop d cs visited = map (visit d) cs @ visited"
proof (induction cs arbitrary: visited rule: rev_induct)
  case Nil
  show ?case by simp
next
  case (snoc c cs)
  then show ?case by (simp add: visitLoop_snoc del: visitLoop.simps visit.simps)
qed

lemma visitLoop_last_repeater:
  assumes "mType r = Repeater" and "\<forall>c \<in> set post. mType c \<noteq> Repeater"
  shows "visitLoop d (pre @ r # post) visited =
      setChildren r (mChildren r @ [visitChildren d (LOTData ShapeGroup d pre)])
        # map (visit d) post @ visited"
  using assms(2)
proof (induction post arbitrary: visited rule: rev_induct)
  case Nil
  show ?case using assms(1) visitLoop_snoc [of d pre r visited] by simp
next
  case (snoc c post)
  have "visitLoop d (pre @ r # post @ [c]) visited = visitLoop d ((pre @ r # post) @ [c]) visited"
    by simp
  also have "\<dots> = visitLoop d (pre @ r # post) (visit d c # visited)"
    using snoc.prems by (simp only: visitLoop_snoc) simp
  finally show ?case using snoc by (simp del: visitLoop.simps visit.simps)
qed

lemma visitChildren_empty_group: "visitChildren d (LOTData t f []) = LOTData t f []"
  by (simp add: setChildren_def)

text \<open>
  C2, as the code has it. Let the children of a node be \<open>pre @ r # post\<close>, where \<open>r\<close> is
  a repeater and no child in \<open>post\<close> is one, so that \<open>r\<close> is the first repeater met in
  reverse order. Then \<open>visitChildren\<close> leaves the node with the children
  \<open>r' # map visit post\<close>: the children \<open>pre\<close> are gone from the list, and \<open>r'\<close> is \<open>r\<close>
  with a new shape group appended to its children, which holds \<open>pre\<close> in its order and
  has itself been visited in the same way. The new group is the last child of the
  repeater, its only child when the repeater had none, and it is empty when no child was
  declared before the repeater.
\<close>

theorem visitChildren_first_repeater:
  assumes "mChildren obj = pre @ r # post"
    and "mType r = Repeater"
    and "\<forall>c \<in> set post. mType c \<noteq> Repeater"
  shows "visitChildren d obj =
      setChildren obj
        (setChildren r (mChildren r @ [visitChildren d (LOTData ShapeGroup d pre)])
           # map (visit d) post) \<and>
    (mChildren r = [] \<longrightarrow>
       mChildren (hd (mChildren (visitChildren d obj))) =
         [visitChildren d (LOTData ShapeGroup d pre)]) \<and>
    (pre = [] \<longrightarrow> visitChildren d (LOTData ShapeGroup d pre) = LOTData ShapeGroup d [])"
proof -
  have "visitChildren d obj =
      setChildren obj
        (setChildren r (mChildren r @ [visitChildren d (LOTData ShapeGroup d pre)])
           # map (visit d) post)"
    using visitLoop_last_repeater [OF assms(2,3), of d pre "[]"] assms(1)
    by (simp del: visitLoop.simps visit.simps)
  then show ?thesis
    by (simp add: setChildren_def del: visitLoop.simps visit.simps visitChildren.simps)
      (simp add: setChildren_def)
qed

theorem visitChildren_first_repeater_witness:
  "mChildren (LOTData Layer ''L'' [shapeA, repeaterR, shapeB]) = [shapeA] @ repeaterR # [shapeB] \<and>
   mType repeaterR = Repeater \<and> mType shapeB \<noteq> Repeater \<and> mChildren repeaterR = [] \<and>
   visitChildren ''new'' (LOTData Layer ''L'' [shapeA, repeaterR, shapeB]) =
     LOTData Layer ''L'' [LOTData Repeater ''R'' [LOTData ShapeGroup ''new'' [shapeA]], shapeB] \<and>
   visitChildren ''new'' (LOTData Layer ''L'' [repeaterR, shapeB]) =
     LOTData Layer ''L'' [LOTData Repeater ''R'' [LOTData ShapeGroup ''new'' []], shapeB]"
  using visitChildren_first_repeater
      [of "LOTData Layer ''L'' [shapeA, repeaterR, shapeB]" "[shapeA]" repeaterR "[shapeB]" "''new''"]
    visitChildren_first_repeater
      [of "LOTData Layer ''L'' [repeaterR, shapeB]" "[]" repeaterR "[shapeB]" "''new''"]
  by (simp add: sample_tree_defs setChildren_def make_shared_LOTShapeGroupData_def)

text \<open>
  C2, as the specification words it, fails for a repeater that has a child already: the
  new group is appended after that child, so it is not the repeater's sole child.
\<close>

theorem visitChildren_sole_child_counterexample:
  "visitChildren ''new'' (LOTData Layer ''L'' [shapeA, LOTData Repeater ''P'' [shapeB]]) =
     LOTData Layer ''L'' [LOTData Repeater ''P'' [shapeB, LOTData ShapeGroup ''new'' [shapeA]]] \<and>
   mChildren (hd (mChildren
       (visitChildren ''new'' (LOTData Layer ''L'' [shapeA, LOTData Repeater ''P'' [shapeB]]))))
     \<noteq> [LOTData ShapeGroup ''new'' [shapeA]]"
  by (simp add: sample_tree_defs setChildren_def make_shared_LOTShapeGroupData_def Let_def)

text \<open>
  C1, as the code has it. For a node whose children are \<open>[A, B, R, C, D, R2]\<close>, with
  \<open>A\<close>, \<open>B\<close>, \<open>C\<close>, \<open>D\<close> ordinary shapes and \<open>R\<close>, \<open>R2\<close> repeaters, normalization leaves
  \<open>R2\<close> as the only direct child. The group that \<open>R2\<close> receives holds \<open>[R, C, D]\<close>, and
  the group that \<open>R\<close> receives inside it holds \<open>[A, B]\<close>.
\<close>

theorem visitChildren_two_repeaters:
  assumes "mChildren obj = [A, B, R, C, D, R2]"
    and "ordinaryShape A" and "ordinaryShape B" and "ordinaryShape C" and "ordinaryShape D"
    and "mType R = Repeater" and "mType R2 = Repeater"
  shows "visitChildren d obj =
      setChildren obj
        [setChildren R2 (mChildren R2 @
           [LOTData ShapeGroup d
              [setChildren R (mChildren R @ [LOTData ShapeGroup d [A, B]]), C, D]])]"
proof -
  have ab: "visitChildren d (LOTData ShapeGroup d [A, B]) = LOTData ShapeGroup d [A, B]"
    using visitLoop_no_repeater [of "[A, B]" d "[]"] assms(2,3)
    by (simp add: ordinaryShape_def visit_ordinaryShape setChildren_def
        del: visitLoop.simps visit.simps)
  have inner: "visitChildren d (LOTData ShapeGroup d [A, B, R, C, D]) =
      LOTData ShapeGroup d [setChildren R (mChildren R @ [LOTData ShapeGroup d [A, B]]), C, D]"
    using visitLoop_last_repeater [of R "[C, D]" d "[A, B]" "[]"] assms(4,5,6) ab
    by (simp add: ordinaryShape_def visit_ordinaryShape setChildren_def
        del: visitLoop.simps visit.simps visitChildren.simps)
      (simp add: setChildren_def del: visitLoop.simps visit.simps)
  show ?thesis
    using visitLoop_last_repeater [of R2 "[]" d "[A, B, R, C, D]" "[]"] assms(1,7) inner
    by (simp del: visitLoop.simps visit.simps visitChildren.simps)
      (simp del: visitLoop.simps visit.simps)
qed

theorem visitChildren_two_repeaters_witness:
  "mChildren sampleGroup = [shapeA, shapeB, repeaterR, shapeC, shapeD, repeaterR2] \<and>
   ordinaryShape shapeA \<and> ordinaryShape shapeB \<and> ordinaryShape shapeC \<and> ordinaryShape shapeD \<and>
   mType repeaterR = Repeater \<and> mType repeaterR2 = Repeater \<and>
   visitChildren ''new'' sampleGroup =
     LOTData ShapeGroup ''G''
       [LOTData Repeater ''R2''
          [LOTData ShapeGroup ''new''
             [LOTData Repeater ''R'' [LOTData ShapeGroup ''new'' [shapeA, shapeB]],
              shapeC, shapeD]]]"
  using visitChildren_two_repeaters
      [of sampleGroup shapeA shapeB repeaterR shapeC shapeD repeaterR2 "''new''"]
  by (simp add: sample_tree_defs ordinaryShape_def setChildren_def)

text \<open>
  C1, as the specification words it, fails on the sample tree: after normalization the
  repeater \<open>R\<close> owns \<open>[A, B]\<close>, not \<open>[C, D]\<close>, and \<open>R2\<close> does not own \<open>[A, B]\<close>.
\<close>

theorem visitChildren_two_repeaters_counterexample:
  "repeaterItems ''R'' (visitChildren ''new'' sampleGroup) = [[shapeA, shapeB]] \<and>
   repeaterItems ''R'' (visitChildren ''new'' sampleGroup) \<noteq> [[shapeC, shapeD]] \<and>
   repeaterItems ''R2'' (visitChildren ''new'' sampleGroup) \<noteq> [[shapeA, shapeB]]"
  by (simp add: sample_tree_defs setChildren_def make_shared_LOTShapeGroupData_def Let_def)

section \<open>Properties of the transform evaluation\<close>

lemma computeMatrix_steps:
  "computeMatrix ops t frameNo autoOrient =
     composeSteps ops (transformSteps t frameNo
        [Rotate (if autoOrient then angleAt (mPosition t) frameNo else 0)])"
  by (simp add: computeMatrix_def composeSteps_def transformSteps_def chain_def setX_def setY_def
      split: option.split)

text \<open>
  C7. The matrix of a transform that is not static is composed in this order: translate
  to the position (the X and Y channels when \<open>mSeparate\<close> is set), rotate by the
  rotation angle, rotate by the auto-orientation angle, with 3-D data rotate by the Z,
  the Y and the X angle, scale by the scale over 100, translate by the negated anchor.
  The code always calls the second rotation, with the tangent angle of the position
  timeline under \<open>autoOrient\<close> and with the angle zero otherwise; where a rotation by
  zero leaves a matrix as it is, that is the order with the additional rotation present
  under \<open>autoOrient\<close> only.
\<close>

theorem matrix_composition_order:
  assumes "\<not> mStaticMatrix t"
  shows "matrix ops t frameNo autoOrient =
      composeSteps ops (transformSteps t frameNo
        [Rotate (if autoOrient then angleAt (mPosition t) frameNo else 0)]) \<and>
    ((\<forall>m. vm_rotate ops 0 m = m) \<longrightarrow>
      matrix ops t frameNo autoOrient =
        composeSteps ops (transformSteps t frameNo
          (if autoOrient then [Rotate (angleAt (mPosition t) frameNo)] else [])))"
  using assms
  by (simp add: matrix_def computeMatrix_steps)
     (simp add: transformSteps_def composeSteps_def)

theorem matrix_composition_order_witness:
  "\<not> mStaticMatrix sampleTransform \<and> (\<forall>m. vm_rotate traceOps 0 m = m) \<and>
   matrix traceOps sampleTransform 2 False =
     [Translate (VPointF 20 20), Rotate 32, Rotate 5, RotateAxis 4 AxisY, RotateAxis 3 AxisX,
      Scale (VPointF 2 (1 / 2)), Translate (VPointF (- 1) (- 2))] \<and>
   matrix traceOps (sampleTransform\<lparr>mSeparate := True, m3D := None\<rparr>) 2 True =
     [Translate (VPointF 7 8), Rotate 32, Rotate 45,
      Scale (VPointF 2 (1 / 2)), Translate (VPointF (- 1) (- 2))]"
  using matrix_composition_order [of sampleTransform traceOps 2 False]
    matrix_composition_order [of "sampleTransform\<lparr>mSeparate := True, m3D := None\<rparr>" traceOps 2 True]
  by (simp add: sampleTransform_def traceOps_def transformSteps_def composeSteps_def constAnim_def
      VPointF_div_def VPointF_neg_def)

text \<open>
  C8. For a static transform, \<open>matrix\<close> returns the cached matrix whatever the frame
  and \<open>autoOrient\<close> are, so any two calls agree; after \<open>cacheMatrix\<close> the cached
  matrix is the one computed at frame 0.
\<close>

theorem matrix_static_cached:
  assumes "mStaticMatrix t"
  shows "matrix ops t frameNo autoOrient = mCachedMatrix t \<and>
    matrix ops t frameNo autoOrient = matrix ops t frameNo' autoOrient' \<and>
    matrix ops (cacheMatrix ops dflt t) frameNo autoOrient = computeMatrix ops t 0 dflt"
  using assms by (simp add: matrix_def cacheMatrix_def)

theorem matrix_static_cached_witness:
  "mStaticMatrix (sampleTransform\<lparr>mStaticMatrix := True\<rparr>) \<and>
   matrix traceOps (cacheMatrix traceOps False (sampleTransform\<lparr>mStaticMatrix := True\<rparr>)) 9 True =
     [Translate (VPointF 0 20), Rotate 30, Rotate 5, RotateAxis 4 AxisY, RotateAxis 3 AxisX,
      Scale (VPointF 2 (1 / 2)), Translate (VPointF (- 1) (- 2))]"
  using matrix_static_cached [of "sampleTransform\<lparr>mStaticMatrix := True\<rparr>" traceOps 9 True 0 False False]
  by (simp add: sampleTransform_def traceOps_def computeMatrix_def chain_def constAnim_def
      VPointF_div_def VPointF_neg_def)

text \<open>
  C3, as the code has it. \<open>matrixForRepeater\<close> composes: translate by the position
  times the multiplier, rotate by the rotation times the multiplier, scale by the scale
  over 100 with each coordinate raised to the power of the multiplier, translate by the
  anchor. The anchor is neither multiplied nor negated. There is no auto-orientation
  step and no 3-D step.
\<close>

theorem matrixForRepeater_steps:
  "matrixForRepeater ops std_pow t frameNo multiplier =
     composeSteps ops
       [Translate (VPointF_mul (valueAt (mPosition t) frameNo) multiplier),
        Rotate (valueAt (mRotation t) frameNo * multiplier),
        Scale (VPointF (std_pow (pt_x (valueAt (mScale t) frameNo) / 100) multiplier)
                       (std_pow (pt_y (valueAt (mScale t) frameNo) / 100) multiplier)),
        Translate (valueAt (mAnchor t) frameNo)]"
  by (simp add: matrixForRepeater_def composeSteps_def chain_def setX_def setY_def VPointF_div_def)

text \<open>
  C3, as the specification words it, fails on the sample transform with the multiplier
  2: the anchor is \<open>(1, 2)\<close> and the last step translates by \<open>(1, 2)\<close>, not by the
  anchor scaled by the multiplier, \<open>(2, 4)\<close>, nor by its negation.
\<close>

theorem matrixForRepeater_anchor_counterexample:
  "matrixForRepeater traceOps (\<lambda>b e. b powr e) sampleTransform 0 2 =
     [Translate (VPointF 0 40), Rotate 60, Scale (VPointF (2 powr 2) ((1 / 2) powr 2)),
      Translate (VPointF 1 2)] \<and>
   VPointF_mul (valueAt (mAnchor sampleTransform) 0) 2 = VPointF 2 4 \<and>
   last (matrixForRepeater traceOps (\<lambda>b e. b powr e) sampleTransform 0 2)
     \<noteq> Translate (VPointF_mul (valueAt (mAnchor sampleTransform) 0) 2) \<and>
   last (matrixForRepeater traceOps (\<lambda>b e. b powr e) sampleTransform 0 2)
     \<noteq> Translate (VPointF_neg (VPointF_mul (valueAt (mAnchor sampleTransform) 0) 2))"
  by (simp add: matrixForRepeater_def sampleTransform_def traceOps_def chain_def constAnim_def
      setX_def setY_def VPointF_div_def VPointF_mul_def VPointF_neg_def)

section \<open>Properties of the gradient stops\<close>

lemma stopsOk_snoc:
  "stopsOk stops \<Longrightarrow> below stops v \<Longrightarrow> 0 \<le> v \<Longrightarrow> v \<le> 1 \<Longrightarrow> stopsOk (stops @ [(v, c)])"
  by (auto simp: stopsOk_def below_def sorted_append)

lemma below_snoc: "below stops w \<Longrightarrow> v \<le> w \<Longrightarrow> below (stops @ [(v, c)]) w"
  by (auto simp: below_def)

lemma below_mono: "below stops v \<Longrightarrow> v \<le> w \<Longrightarrow> below stops w"
  by (force simp: below_def)

lemma rd_in: "i = int m \<Longrightarrow> m < length xs \<Longrightarrow> rd xs i = Some (xs ! m)"
  by (simp add: rd_def)

lemma opacityLoop_inv:
  assumes len: "length buf = 4 * n + 2 * k"
    and sortedO: "\<And>a b. a \<le> b \<Longrightarrow> b < k \<Longrightarrow> buf ! (4 * n + 2 * a) \<le> buf ! (4 * n + 2 * b)"
    and rangeO: "\<And>a. a < k \<Longrightarrow> 0 \<le> buf ! (4 * n + 2 * a) \<and> buf ! (4 * n + 2 * a) \<le> 1"
    and c: "0 \<le> c" "c \<le> 1"
  shows "q \<le> k \<Longrightarrow> stopsOk stops \<Longrightarrow> below stops c \<Longrightarrow>
      (q < k \<Longrightarrow> below stops (buf ! (4 * n + 2 * q))) \<Longrightarrow>
      \<exists>q' stops'. opacityLoop buf (int (4 * n)) (int (2 * k)) c color (int (2 * q)) stops
                     = Some (int (2 * q'), stops') \<and>
        q \<le> q' \<and> q' \<le> k \<and> stopsOk stops' \<and> below stops' c \<and>
        (q' < k \<longrightarrow> below stops' (buf ! (4 * n + 2 * q')))"
proof (induction "k - q" arbitrary: q stops)
  case 0
  then have "q = k" by simp
  then show ?case using 0 by (subst opacityLoop.simps) auto
next
  case (Suc d)
  then have qk: "q < k" by simp
  define os where "os = buf ! (4 * n + 2 * q)"
  define oa where "oa = buf ! (4 * n + 2 * q + 1)"
  have r0: "rd buf (int (4 * n) + int (2 * q)) = Some os"
    unfolding os_def by (rule rd_in) (use qk len in simp_all)
  have r1: "rd buf (int (4 * n) + (int (2 * q) + 1)) = Some oa"
    unfolding oa_def by (rule rd_in) (use qk len in simp_all)
  have osr: "0 \<le> os" "os \<le> 1" using rangeO [OF qk] by (simp_all add: os_def)
  have bos: "below stops os" using Suc.prems(4) qk by (simp add: os_def)
  show ?case
  proof (cases "os < c")
    case True
    let ?stops = "stops @ [(os, ToColor color oa)]"
    have step: "opacityLoop buf (int (4 * n)) (int (2 * k)) c color (int (2 * q)) stops =
        opacityLoop buf (int (4 * n)) (int (2 * k)) c color (int (2 * Suc q)) ?stops"
      using qk True r0 r1 by (subst opacityLoop.simps) (simp add: add.commute)
    have ok: "stopsOk ?stops" using Suc.prems(2) bos osr by (rule stopsOk_snoc)
    have bc: "below ?stops c" using Suc.prems(3) True by (intro below_snoc) simp_all
    have bn: "below ?stops (buf ! (4 * n + 2 * Suc q))" if "Suc q < k"
    proof -
      have le: "os \<le> buf ! (4 * n + 2 * Suc q)"
        unfolding os_def using sortedO [of q "Suc q"] that by simp
      show ?thesis using below_mono [OF bos le] le by (intro below_snoc) simp_all
    qed
    have "\<exists>q' stops'. opacityLoop buf (int (4 * n)) (int (2 * k)) c color (int (2 * Suc q)) ?stops
                     = Some (int (2 * q'), stops') \<and>
        Suc q \<le> q' \<and> q' \<le> k \<and> stopsOk stops' \<and> below stops' c \<and>
        (q' < k \<longrightarrow> below stops' (buf ! (4 * n + 2 * q')))"
      using Suc.hyps(2) qk ok bc bn by (intro Suc.hyps(1)) simp_all
    then show ?thesis unfolding step by (metis Suc_leD)
  next
    case False
    then have cos: "c \<le> os" by simp
    have bn: "below (stops @ [(c, col)]) (buf ! (4 * n + 2 * Suc q))" if "Suc q < k" for col
    proof -
      have le: "os \<le> buf ! (4 * n + 2 * Suc q)"
        unfolding os_def using sortedO [of q "Suc q"] that by simp
      show ?thesis using below_mono [OF bos le] le cos by (intro below_snoc) simp_all
    qed
    have okc: "stopsOk (stops @ [(c, col)])" for col
      using Suc.prems(2,3) c by (rule stopsOk_snoc)
    have bcc: "below (stops @ [(c, col)]) c" for col
      using Suc.prems(3) by (intro below_snoc) simp_all
    show ?thesis
    proof (cases "q = 0")
      case True
      have "opacityLoop buf (int (4 * n)) (int (2 * k)) c color (int (2 * q)) stops =
          Some (int (2 * Suc q), stops @ [(c, ToColor color oa)])"
        using qk False r0 r1 True by (subst opacityLoop.simps) simp
      then show ?thesis using qk okc bcc bn by (intro exI [of _ "Suc q"]) auto
    next
      case q0: False
      then obtain q1 where q1: "q = Suc q1" by (cases q) auto
      define ps where "ps = buf ! (4 * n + 2 * q1)"
      define pa where "pa = buf ! (4 * n + 2 * q1 + 1)"
      have r2: "rd buf (int (4 * n) + (int (2 * q) - 2)) = Some ps"
        unfolding ps_def by (rule rd_in) (use qk len q1 in simp_all)
      have r3: "rd buf (int (4 * n) + (int (2 * q) - 1)) = Some pa"
        unfolding pa_def by (rule rd_in) (use qk len q1 in simp_all)
      have "opacityLoop buf (int (4 * n)) (int (2 * k)) c color (int (2 * q)) stops =
          Some (int (2 * Suc q),
                stops @ [(c, ToColor color (pa + (c - ps) / (os - ps) * (oa - pa)))])"
        using qk False r0 r1 r2 r3 q0 by (subst opacityLoop.simps) (simp add: Let_def)
      then show ?thesis using qk okc bcc bn by (intro exI [of _ "Suc q"]) auto
    qed
  qed
qed

lemma colorLoop_inv:
  assumes len: "length buf = 4 * n + 2 * k"
    and sortedC: "\<And>a b. a \<le> b \<Longrightarrow> b < n \<Longrightarrow> buf ! (4 * a) \<le> buf ! (4 * b)"
    and rangeC: "\<And>a. a < n \<Longrightarrow> 0 \<le> buf ! (4 * a) \<and> buf ! (4 * a) \<le> 1"
    and sortedO: "\<And>a b. a \<le> b \<Longrightarrow> b < k \<Longrightarrow> buf ! (4 * n + 2 * a) \<le> buf ! (4 * n + 2 * b)"
    and rangeO: "\<And>a. a < k \<Longrightarrow> 0 \<le> buf ! (4 * n + 2 * a) \<and> buf ! (4 * n + 2 * a) \<le> 1"
  shows "i \<le> n \<Longrightarrow> p \<le> i \<Longrightarrow> q \<le> k \<Longrightarrow> stopsOk stops \<Longrightarrow>
      (p < n \<Longrightarrow> below stops (buf ! (4 * p))) \<Longrightarrow>
      (q < k \<Longrightarrow> below stops (buf ! (4 * n + 2 * q))) \<Longrightarrow>
      \<exists>stops'. colorLoop buf (int n) (int (4 * n)) (int (2 * k)) (int i) (int (4 * p)) (int (2 * q))
                  stops = Some stops' \<and> stopsOk stops'"
proof (induction "n - i" arbitrary: i p q stops)
  case 0
  then have "i = n" by simp
  then show ?case using 0 by (subst colorLoop.simps) simp
next
  case (Suc d)
  then have lt: "i < n" "p < n" by simp_all
  define c where "c = buf ! (4 * p)"
  define r where "r = buf ! (4 * p + 1)"
  define g where "g = buf ! (4 * p + 2)"
  define b where "b = buf ! (4 * p + 3)"
  have rc: "rd buf (int (4 * p)) = Some c"
    unfolding c_def by (rule rd_in) (use lt len in simp_all)
  have rr: "rd buf (int (4 * p) + 1) = Some r"
    unfolding r_def by (rule rd_in) (use lt len in simp_all)
  have rg: "rd buf (int (4 * p) + 2) = Some g"
    unfolding g_def by (rule rd_in) (use lt len in simp_all)
  have rb: "rd buf (int (4 * p) + 3) = Some b"
    unfolding b_def by (rule rd_in) (use lt len in simp_all)
  have cr: "0 \<le> c" "c \<le> 1" using rangeC [OF lt(2)] by (simp_all add: c_def)
  have bc: "below stops c" using Suc.prems(5) lt by (simp add: c_def)
  have okc: "stopsOk (stops @ [(c, col)])" for col
    using Suc.prems(4) bc cr by (rule stopsOk_snoc)
  have nxt: "below stops' (buf ! (4 * Suc p))" if "below stops' c" "Suc p < n" for stops'
    using that(1) unfolding c_def by (rule below_mono) (use sortedC [of p "Suc p"] that(2) in simp)
  have ih: "\<exists>stops'. colorLoop buf (int n) (int (4 * n)) (int (2 * k)) (int (Suc i)) (int (4 * p'))
                  (int (2 * q')) st = Some stops' \<and> stopsOk stops'"
    if "p' \<le> Suc i" "q' \<le> k" "stopsOk st" "p' < n \<Longrightarrow> below st (buf ! (4 * p'))"
      "q' < k \<Longrightarrow> below st (buf ! (4 * n + 2 * q'))" for p' q' st
    using Suc.hyps(2) lt that by (intro Suc.hyps(1)) simp_all
  show ?case
  proof (cases "k = 0")
    case True
    have step: "colorLoop buf (int n) (int (4 * n)) (int (2 * k)) (int i) (int (4 * p)) (int (2 * q)) stops
        = colorLoop buf (int n) (int (4 * n)) (int (2 * k)) (int (Suc i)) (int (4 * Suc p)) (int (2 * q))
            (stops @ [(c, ToColorDefault (LottieColor r g b))])"
      using lt True rc rr rg rb by (subst colorLoop.simps) (simp add: add.commute)
    show ?thesis unfolding step
      using Suc.prems(2,3) True okc nxt [OF below_snoc [OF bc order_refl]]
      by (intro ih) simp_all
  next
    case k0: False
    show ?thesis
    proof (cases "q = k")
      case True
      define s1 where "s1 = buf ! (4 * n + 2 * k - 4)"
      define o1 where "o1 = buf ! (4 * n + 2 * k - 3)"
      define s2 where "s2 = buf ! (4 * n + 2 * k - 2)"
      define o2 where "o2 = buf ! (4 * n + 2 * k - 1)"
      have r1: "rd buf (int (4 * n) + (int (2 * q) - 4)) = Some s1"
        unfolding s1_def by (rule rd_in) (use lt len k0 True in simp_all)
      have r2: "rd buf (int (4 * n) + (int (2 * q) - 3)) = Some o1"
        unfolding o1_def by (rule rd_in) (use lt len k0 True in simp_all)
      have r3: "rd buf (int (4 * n) + (int (2 * q) - 2)) = Some s2"
        unfolding s2_def by (rule rd_in) (use lt len k0 True in simp_all)
      have r4: "rd buf (int (4 * n) + (int (2 * q) - 1)) = Some o2"
        unfolding o2_def by (rule rd_in) (use lt len k0 True in simp_all)
      have "\<exists>col. colorLoop buf (int n) (int (4 * n)) (int (2 * k)) (int i) (int (4 * p)) (int (2 * q)) stops
        = colorLoop buf (int n) (int (4 * n)) (int (2 * k)) (int (Suc i)) (int (4 * p)) (int (2 * q))
            (stops @ [(c, col)])"
        using lt True k0 rc rr rg rb r1 r2 r3 r4
        by (subst colorLoop.simps) (auto simp add: add.commute Let_def)
      then obtain col where step:
        "colorLoop buf (int n) (int (4 * n)) (int (2 * k)) (int i) (int (4 * p)) (int (2 * q)) stops
        = colorLoop buf (int n) (int (4 * n)) (int (2 * k)) (int (Suc i)) (int (4 * p)) (int (2 * q))
            (stops @ [(c, col)])" ..
      show ?thesis unfolding step
        using Suc.prems(2,3) True okc below_snoc [OF bc order_refl]
        by (intro ih) (simp_all add: c_def)
    next
      case False
      then have qk: "q < k" using Suc.prems(3) by simp
      obtain q' stops' where inner:
        "opacityLoop buf (int (4 * n)) (int (2 * k)) c (LottieColor r g b) (int (2 * q)) stops
           = Some (int (2 * q'), stops')"
        "q \<le> q'" "q' \<le> k" "stopsOk stops'" "below stops' c"
        "q' < k \<longrightarrow> below stops' (buf ! (4 * n + 2 * q'))"
        using opacityLoop_inv [OF len sortedO rangeO cr Suc.prems(3,4) bc Suc.prems(6),
            of "LottieColor r g b"]
        by blast
      have step: "colorLoop buf (int n) (int (4 * n)) (int (2 * k)) (int i) (int (4 * p)) (int (2 * q)) stops
        = colorLoop buf (int n) (int (4 * n)) (int (2 * k)) (int (Suc i)) (int (4 * Suc p)) (int (2 * q'))
            stops'"
        using lt False k0 rc rr rg rb inner(1)
        by (subst colorLoop.simps) (simp add: add.commute)
      show ?thesis unfolding step
        using Suc.prems(2) inner nxt [OF inner(5)]
        by (intro ih) simp_all
    qed
  qed
qed

lemma colorLoop_plain:
  assumes len: "length buf = 4 * n"
  shows "i \<le> n \<Longrightarrow>
    colorLoop buf (int n) opacityPtr 0 (int i) (int (4 * i)) j stops
      = Some (stops @ map (plainStop buf) [i..<n])"
proof (induction "n - i" arbitrary: i stops)
  case 0
  then have "i = n" by simp
  then show ?case by (subst colorLoop.simps) simp
next
  case (Suc d)
  then have lt: "i < n" by simp
  have rc: "rd buf (int (4 * i)) = Some (buf ! (4 * i))"
    by (rule rd_in) (use lt len in simp_all)
  have rr: "rd buf (int (4 * i) + 1) = Some (buf ! (4 * i + 1))"
    by (rule rd_in) (use lt len in simp_all)
  have rg: "rd buf (int (4 * i) + 2) = Some (buf ! (4 * i + 2))"
    by (rule rd_in) (use lt len in simp_all)
  have rb: "rd buf (int (4 * i) + 3) = Some (buf ! (4 * i + 3))"
    by (rule rd_in) (use lt len in simp_all)
  have step: "colorLoop buf (int n) opacityPtr 0 (int i) (int (4 * i)) j stops
      = colorLoop buf (int n) opacityPtr 0 (int (Suc i)) (int (4 * Suc i)) j
          (stops @ [plainStop buf i])"
    using lt rc rr rg rb by (subst colorLoop.simps) (simp add: add.commute plainStop_def)
  have "colorLoop buf (int n) opacityPtr 0 (int (Suc i)) (int (4 * Suc i)) j
          (stops @ [plainStop buf i])
      = Some ((stops @ [plainStop buf i]) @ map (plainStop buf) [Suc i..<n])"
    using Suc.hyps(2) lt by (intro Suc.hyps(1)) simp_all
  then show ?case unfolding step using lt by (simp add: upt_conv_Cons)
qed

lemma populate_unfold:
  assumes buf: "mGradient (valueAt (mGradientAnim g) frameNo) = buf"
    and len: "length buf = 4 * n + m"
    and cnt: "mColorPoints g = int n \<or> (mColorPoints g = - 1 \<and> m < 4)"
    and fit: "4 * n + m < 2 ^ 31"
  shows "populate g frameNo = colorLoop buf (int n) (int (4 * n)) (int m) 0 0 0 []"
proof -
  have size: "c_int (int (length buf)) = Some (int (4 * n + m))"
    using fit len by (simp add: c_int_def)
  have "int (4 * n + m) sdiv 4 = int n" if "m < 4"
    using that by (simp add: signed_divide_int_def sgn_if)
  then have cp: "(if mColorPoints g = - 1 then int (4 * n + m) sdiv 4 else mColorPoints g) = int n"
    using cnt by auto
  have cb: "c_int (int n * 4) = Some (int (4 * n))"
    using fit by (simp add: c_int_def)
  have oa: "c_int (int (4 * n + m) - int (4 * n)) = Some (int m)"
    using fit by (simp add: c_int_def)
  show ?thesis
    by (simp only: populate_def Let_def buf size Option.bind.simps cp cb oa)
qed

lemmas populate_eval =
  populate_def gradientOf_def constAnim_def c_int_def colorLoop.simps opacityLoop.simps rd_def
  Let_def signed_divide_int_def

lemma populate_no_opacity:
  assumes "length (mGradient (valueAt (mGradientAnim g) frameNo)) = 4 * n"
    and "mColorPoints g = int n \<or> mColorPoints g = - 1"
    and "4 * n < 2 ^ 31"
  shows "populate g frameNo =
      Some (map (plainStop (mGradient (valueAt (mGradientAnim g) frameNo))) [0..<n]) \<and>
    map fst (map (plainStop (mGradient (valueAt (mGradientAnim g) frameNo))) [0..<n]) =
      colorStops (mGradient (valueAt (mGradientAnim g) frameNo)) n"
proof -
  define buf where "buf = mGradient (valueAt (mGradientAnim g) frameNo)"
  have "populate g frameNo = colorLoop buf (int n) (int (4 * n)) (int 0) 0 0 0 []"
    using assms by (intro populate_unfold) (auto simp: buf_def)
  also have "\<dots> = Some ([] @ map (plainStop buf) [0..<n])"
    using colorLoop_plain [of buf n 0 "int (4 * n)" 0 "[]"] assms(1) by (simp add: buf_def)
  finally show ?thesis
    by (simp add: buf_def colorStops_def plainStop_def comp_def)
qed

lemma opacityLoop_not_below:
  assumes len: "length buf = 4 * n + 2 * k" and qk: "q < k"
    and nb: "\<not> buf ! (4 * n + 2 * q) < c"
  shows "\<exists>op. opacityLoop buf (int (4 * n)) (int (2 * k)) c color (int (2 * q)) stops
           = Some (int (2 * Suc q), stops @ [(c, ToColor color op)])"
proof -
  have r0: "rd buf (int (4 * n) + int (2 * q)) = Some (buf ! (4 * n + 2 * q))"
    by (rule rd_in) (use qk len in simp_all)
  have r1: "rd buf (int (4 * n) + (int (2 * q) + 1)) = Some (buf ! (4 * n + 2 * q + 1))"
    by (rule rd_in) (use qk len in simp_all)
  show ?thesis
  proof (cases "q = 0")
    case True
    show ?thesis using qk nb r0 r1 True by (subst opacityLoop.simps) simp
  next
    case False
    then obtain q1 where q1: "q = Suc q1" by (cases q) auto
    have r2: "rd buf (int (4 * n) + (int (2 * q) - 2)) = Some (buf ! (4 * n + 2 * q1))"
      by (rule rd_in) (use qk len q1 in simp_all)
    have r3: "rd buf (int (4 * n) + (int (2 * q) - 1)) = Some (buf ! (4 * n + 2 * q1 + 1))"
      by (rule rd_in) (use qk len q1 in simp_all)
    show ?thesis using qk nb r0 r1 r2 r3 False
      by (subst opacityLoop.simps) (simp add: Let_def)
  qed
qed

lemma colorLoop_done: "colorLoop buf n opacityPtr opacityArraySize n ptr j stops = Some stops"
  by (subst colorLoop.simps) simp

lemma colorLoop_lockstep:
  assumes len: "length buf = 4 * n + 2 * k" and k: "0 < k" and enough: "n \<le> k + 1"
    and nb: "\<And>a. a < n \<Longrightarrow> a < k \<Longrightarrow> \<not> buf ! (4 * n + 2 * a) < buf ! (4 * a)"
  shows "i \<le> n \<Longrightarrow> (i < n \<Longrightarrow> ptr = int (4 * i) \<and> j = int (2 * i)) \<Longrightarrow>
    \<exists>stops'. colorLoop buf (int n) (int (4 * n)) (int (2 * k)) (int i) ptr j stops
                = Some (stops @ stops') \<and>
      map fst stops' = map (\<lambda>a. buf ! (4 * a)) [i..<n] \<and>
      map (stopColor \<circ> snd) stops' = map (colorAt buf) [i..<n]"
proof (induction "n - i" arbitrary: i ptr j stops)
  case 0
  then have "i = n" by simp
  then show ?case by (simp add: colorLoop_done)
next
  case (Suc d)
  then have lt: "i < n" by simp
  then have pj: "ptr = int (4 * i)" "j = int (2 * i)" using Suc.prems(2) by simp_all
  have rc: "rd buf (int (4 * i)) = Some (buf ! (4 * i))"
    by (rule rd_in) (use lt len in simp_all)
  have rr: "rd buf (int (4 * i) + 1) = Some (buf ! (4 * i + 1))"
    by (rule rd_in) (use lt len in simp_all)
  have rg: "rd buf (int (4 * i) + 2) = Some (buf ! (4 * i + 2))"
    by (rule rd_in) (use lt len in simp_all)
  have rb: "rd buf (int (4 * i) + 3) = Some (buf ! (4 * i + 3))"
    by (rule rd_in) (use lt len in simp_all)
  have "\<exists>op ptr' j'. colorLoop buf (int n) (int (4 * n)) (int (2 * k)) (int i) ptr j stops
      = colorLoop buf (int n) (int (4 * n)) (int (2 * k)) (int (Suc i)) ptr' j'
          (stops @ [(buf ! (4 * i), ToColor (colorAt buf i) op)]) \<and>
      (Suc i < n \<longrightarrow> ptr' = int (4 * Suc i) \<and> j' = int (2 * Suc i))"
  proof (cases "i < k")
    case True
    obtain op where inner:
      "opacityLoop buf (int (4 * n)) (int (2 * k)) (buf ! (4 * i)) (colorAt buf i) (int (2 * i)) stops
         = Some (int (2 * Suc i), stops @ [(buf ! (4 * i), ToColor (colorAt buf i) op)])"
      using opacityLoop_not_below [OF len True nb [OF lt True]] by blast
    have "colorLoop buf (int n) (int (4 * n)) (int (2 * k)) (int i) ptr j stops
      = colorLoop buf (int n) (int (4 * n)) (int (2 * k)) (int (Suc i)) (int (4 * Suc i))
          (int (2 * Suc i)) (stops @ [(buf ! (4 * i), ToColor (colorAt buf i) op)])"
      unfolding pj using lt True k rc rr rg rb inner [unfolded colorAt_def]
      by (subst colorLoop.simps) (simp add: add.commute colorAt_def)
    then show ?thesis by blast
  next
    case False
    then have ik: "i = k" using lt enough by simp
    have r1: "rd buf (int (4 * n) + (int (2 * i) - 4)) = Some (buf ! (4 * n + 2 * k - 4))"
      by (rule rd_in) (use lt len k ik in simp_all)
    have r2: "rd buf (int (4 * n) + (int (2 * i) - 3)) = Some (buf ! (4 * n + 2 * k - 3))"
      by (rule rd_in) (use lt len k ik in simp_all)
    have r3: "rd buf (int (4 * n) + (int (2 * i) - 2)) = Some (buf ! (4 * n + 2 * k - 2))"
      by (rule rd_in) (use lt len k ik in simp_all)
    have r4: "rd buf (int (4 * n) + (int (2 * i) - 1)) = Some (buf ! (4 * n + 2 * k - 1))"
      by (rule rd_in) (use lt len k ik in simp_all)
    have "\<exists>op. colorLoop buf (int n) (int (4 * n)) (int (2 * k)) (int i) ptr j stops
      = colorLoop buf (int n) (int (4 * n)) (int (2 * k)) (int (Suc i)) ptr j
          (stops @ [(buf ! (4 * i), ToColor (colorAt buf i) op)])"
      unfolding pj using lt ik k rc rr rg rb r1 r2 r3 r4
      by (subst colorLoop.simps) (auto simp add: add.commute Let_def colorAt_def)
    moreover have "\<not> Suc i < n" using ik enough by simp
    ultimately show ?thesis by blast
  qed
  then obtain op ptr' j' where step:
    "colorLoop buf (int n) (int (4 * n)) (int (2 * k)) (int i) ptr j stops
      = colorLoop buf (int n) (int (4 * n)) (int (2 * k)) (int (Suc i)) ptr' j'
          (stops @ [(buf ! (4 * i), ToColor (colorAt buf i) op)])"
    and nxt: "Suc i < n \<longrightarrow> ptr' = int (4 * Suc i) \<and> j' = int (2 * Suc i)"
    by blast
  have "\<exists>rest. colorLoop buf (int n) (int (4 * n)) (int (2 * k)) (int (Suc i)) ptr' j'
          (stops @ [(buf ! (4 * i), ToColor (colorAt buf i) op)])
       = Some ((stops @ [(buf ! (4 * i), ToColor (colorAt buf i) op)]) @ rest) \<and>
    map fst rest = map (\<lambda>a. buf ! (4 * a)) [Suc i..<n] \<and>
    map (stopColor \<circ> snd) rest = map (colorAt buf) [Suc i..<n]"
  proof (rule Suc.hyps(1))
    show "d = n - Suc i" using Suc.hyps(2) by simp
    show "Suc i \<le> n" using lt by simp
    show "ptr' = int (4 * Suc i) \<and> j' = int (2 * Suc i)" if "Suc i < n"
      using nxt that by simp
  qed
  then obtain rest where rest:
    "colorLoop buf (int n) (int (4 * n)) (int (2 * k)) (int (Suc i)) ptr' j'
          (stops @ [(buf ! (4 * i), ToColor (colorAt buf i) op)])
       = Some ((stops @ [(buf ! (4 * i), ToColor (colorAt buf i) op)]) @ rest)"
    "map fst rest = map (\<lambda>a. buf ! (4 * a)) [Suc i..<n]"
    "map (stopColor \<circ> snd) rest = map (colorAt buf) [Suc i..<n]"
    by blast
  show ?case
    unfolding step rest(1)
    using rest(2,3) lt
    by (intro exI [of _ "(buf ! (4 * i), ToColor (colorAt buf i) op) # rest"])
      (simp add: upt_conv_Cons)
qed

text \<open>
  C4, as the code has it. Let the buffer hold \<open>n\<close> colour stops and \<open>k\<close> opacity
  pairs, the declared count being \<open>n\<close>, or the sentinel \<open>-1\<close>, which stands for a quarter
  of the length. \<open>populate\<close> emits exactly one stop per colour stop, in the order of the
  colour stops, each at the position and with the colour of its colour stop and the
  positions not sorted, when there is no opacity data, and also when there are at least
  \<open>n - 1\<close> opacity pairs and no colour stop lies above the position of the opacity pair
  of the same index. Without opacity data the stops carry the default opacity.
\<close>

theorem populate_one_stop_per_color:
  assumes buf: "mGradient (valueAt (mGradientAnim g) frameNo) = buf"
    and len: "length buf = 4 * n + 2 * k"
    and cnt: "mColorPoints g = int n \<or> (mColorPoints g = - 1 \<and> k \<le> 1)"
    and fit: "4 * n + 2 * k < 2 ^ 31"
    and enough: "k = 0 \<or> n \<le> k + 1"
    and nb: "\<forall>a. a < n \<and> a < k \<longrightarrow> \<not> buf ! (4 * n + 2 * a) < buf ! (4 * a)"
  shows "(\<exists>stops. populate g frameNo = Some stops \<and> length stops = n \<and>
            map fst stops = colorStops buf n \<and>
            map (stopColor \<circ> snd) stops = map (colorAt buf) [0..<n]) \<and>
         (k = 0 \<longrightarrow> populate g frameNo = Some (map (plainStop buf) [0..<n]))"
proof -
  have unf: "populate g frameNo = colorLoop buf (int n) (int (4 * n)) (int (2 * k)) 0 0 0 []"
    using buf len cnt fit by (intro populate_unfold) auto
  have plain: "populate g frameNo = Some (map (plainStop buf) [0..<n])" if "k = 0"
    using colorLoop_plain [of buf n 0 "int (4 * n)" 0 "[]"] len that unfolding unf by simp
  have "\<exists>stops. populate g frameNo = Some stops \<and>
            map fst stops = colorStops buf n \<and>
            map (stopColor \<circ> snd) stops = map (colorAt buf) [0..<n]"
  proof (cases "k = 0")
    case True
    show ?thesis unfolding plain [OF True]
      by (simp add: colorStops_def plainStop_def colorAt_def comp_def)
  next
    case False
    then have k: "0 < k" and en: "n \<le> k + 1" using enough by simp_all
    have "\<exists>stops'. colorLoop buf (int n) (int (4 * n)) (int (2 * k)) (int 0) 0 0 []
                = Some ([] @ stops') \<and>
      map fst stops' = map (\<lambda>a. buf ! (4 * a)) [0..<n] \<and>
      map (stopColor \<circ> snd) stops' = map (colorAt buf) [0..<n]"
      by (rule colorLoop_lockstep [OF len k en]) (use nb in simp_all)
    then show ?thesis unfolding unf by (simp add: colorStops_def)
  qed
  then obtain stops where st: "populate g frameNo = Some stops"
    "map fst stops = colorStops buf n"
    "map (stopColor \<circ> snd) stops = map (colorAt buf) [0..<n]" by blast
  have "length stops = n" using arg_cong [OF st(2), of length] by (simp add: colorStops_def)
  then show ?thesis using st plain by blast
qed

theorem populate_one_stop_per_color_witness:
  "length mergeSample = 4 * 3 + 2 * 3 \<and>
   mColorPoints (gradientOf mergeSample 3) = int 3 \<and>
   populate (gradientOf mergeSample 3) 0 =
     Some [(0, ToColor (LottieColor 1 0 0) 1),
           (1 / 2, ToColor (LottieColor 0 1 0) (1 / 2)),
           (1, ToColor (LottieColor 0 0 1) 0)] \<and>
   colorStops mergeSample 3 = [0, 1 / 2, 1] \<and>
   mColorPoints (gradientOf [1, 1, 1, 1, 0, 1, 1, 0] (- 1)) = - 1 \<and>
   populate (gradientOf [1, 1, 1, 1, 0, 1, 1, 0] (- 1)) 5 =
     Some [(1, ToColorDefault (LottieColor 1 1 1)), (0, ToColorDefault (LottieColor 1 1 0))]"
proof -
  have nb: "\<forall>a. a < 3 \<and> a < 3 \<longrightarrow> \<not> mergeSample ! (4 * 3 + 2 * a) < mergeSample ! (4 * a)"
    by (auto simp: mergeSample_def less_Suc_eq numeral_3_eq_3)
  have a: "\<exists>stops. populate (gradientOf mergeSample 3) 0 = Some stops \<and> length stops = 3 \<and>
      map fst stops = colorStops mergeSample 3 \<and>
      map (stopColor \<circ> snd) stops = map (colorAt mergeSample) [0..<3]"
    using populate_one_stop_per_color [of "gradientOf mergeSample 3" 0 mergeSample 3 3] nb
    by (simp add: gradientOf_def constAnim_def) (simp add: mergeSample_def)
  have b: "populate (gradientOf [1, 1, 1, 1, 0, 1, 1, 0] (- 1)) 5 =
      Some (map (plainStop [1, 1, 1, 1, 0, 1, 1, 0]) [0..<2])"
    using populate_one_stop_per_color
      [of "gradientOf [1, 1, 1, 1, 0, 1, 1, 0] (- 1)" 5 "[1, 1, 1, 1, 0, 1, 1, 0]" 2 0]
    by (simp add: gradientOf_def constAnim_def)
  have c: "populate (gradientOf mergeSample 3) 0 =
     Some [(0, ToColor (LottieColor 1 0 0) 1),
           (1 / 2, ToColor (LottieColor 0 1 0) (1 / 2)),
           (1, ToColor (LottieColor 0 0 1) 0)]"
    using a by (simp add: populate_eval mergeSample_def)
  show ?thesis using b c
    by (simp add: mergeSample_def gradientOf_def colorStops_def plainStop_def upt_rec)
qed

text \<open>
  C4, as the specification words it, fails in the two cases left out. For one colour
  stop at \<open>1/2\<close> and the opacity pairs \<open>(0, 1)\<close>, \<open>(1, 0)\<close>, an opacity position lies
  below the colour stop and \<open>populate\<close> emits two stops, one at the opacity position 0
  and one at the colour stop. For three colour stops at 0, 1/2 and 1 and the one opacity
  pair \<open>(0, 1)\<close>, the opacity pairs are used up before the last colour stop and the third
  stop emitted is the second colour stop again.
\<close>

theorem populate_one_stop_per_color_counterexample:
  "mColorPoints (gradientOf [1 / 2, 1, 1, 1, 0, 1, 1, 0] 1) = 1 \<and>
   populate (gradientOf [1 / 2, 1, 1, 1, 0, 1, 1, 0] 1) 0 =
     Some [(0, ToColor (LottieColor 1 1 1) 1), (1 / 2, ToColor (LottieColor 1 1 1) (1 / 2))] \<and>
   map_option length (populate (gradientOf [1 / 2, 1, 1, 1, 0, 1, 1, 0] 1) 0) \<noteq> Some 1 \<and>
   mColorPoints (gradientOf [0, 1, 0, 0, 1 / 2, 0, 1, 0, 1, 0, 0, 1, 0, 1] 3) = 3 \<and>
   populate (gradientOf [0, 1, 0, 0, 1 / 2, 0, 1, 0, 1, 0, 0, 1, 0, 1] 3) 0 =
     Some [(0, ToColor (LottieColor 1 0 0) 1),
           (1 / 2, ToColor (LottieColor 0 1 0) 1),
           (1 / 2, ToColor (LottieColor 0 1 0) 1)] \<and>
   colorStops [0, 1, 0, 0, 1 / 2, 0, 1, 0, 1, 0, 0, 1, 0, 1] 3 = [0, 1 / 2, 1] \<and>
   map_option (map fst) (populate (gradientOf [0, 1, 0, 0, 1 / 2, 0, 1, 0, 1, 0, 0, 1, 0, 1] 3) 0)
     \<noteq> Some (colorStops [0, 1, 0, 0, 1 / 2, 0, 1, 0, 1, 0, 0, 1, 0, 1] 3)"
  by (simp add: populate_eval colorStops_def upt_rec)

text \<open>
  Two more runs with opacity data. Once the opacity pairs are used up, the \<open>continue\<close>
  leaves \<open>ptr\<close> on the same colour quadruple: of three colour stops at 0, 1/2 and 1 with
  the one opacity pair \<open>(0, 1)\<close>, the second is emitted twice and the third never. And a
  colour stop that lies above every opacity stop left is not emitted at all when the
  inner loop runs to its end: for one colour stop at 1 with the opacity pairs \<open>(0, 1)\<close>,
  \<open>(1/2, 1)\<close>, the output has the two opacity positions and no stop at 1.
\<close>

lemma populate_after_opacity_used_up:
  "populate (gradientOf [0, 1, 0, 0, 1 / 2, 0, 1, 0, 1, 0, 0, 1, 0, 1] 3) 0 =
     Some [(0, ToColor (LottieColor 1 0 0) 1),
           (1 / 2, ToColor (LottieColor 0 1 0) 1),
           (1 / 2, ToColor (LottieColor 0 1 0) 1)]"
  by (simp add: populate_eval)

lemma populate_color_stop_skipped:
  "populate (gradientOf [1, 1, 1, 1, 0, 1, 1 / 2, 1] 1) 0 =
     Some [(0, ToColor (LottieColor 1 1 1) 1), (1 / 2, ToColor (LottieColor 1 1 1) 1)]"
  by (simp add: populate_eval)

lemma sorted_map_upt:
  "sorted (map f [0..<n]) \<Longrightarrow> a \<le> b \<Longrightarrow> b < n \<Longrightarrow> (f a :: real) \<le> f b"
  using sorted_nth_mono [of "map f [0..<n]" a b] by simp

text \<open>
  C5, as the code has it. For a buffer of \<open>n\<close> colour stops and \<open>k\<close> opacity pairs
  whose colour-stop positions and opacity-stop positions each ascend and lie in
  \<open>[0,1]\<close>, \<open>populate\<close> returns stops whose positions ascend and lie in \<open>[0,1]\<close>.
\<close>

theorem populate_sorted:
  assumes buf: "mGradient (valueAt (mGradientAnim g) frameNo) = buf"
    and len: "length buf = 4 * n + 2 * k"
    and cnt: "mColorPoints g = int n \<or> (mColorPoints g = - 1 \<and> k \<le> 1)"
    and fit: "4 * n + 2 * k < 2 ^ 31"
    and sc: "sorted (colorStops buf n)" and so: "sorted (opacityStops buf n k)"
    and rc: "set (colorStops buf n) \<subseteq> {0..1}" and ro: "set (opacityStops buf n k) \<subseteq> {0..1}"
  shows "\<exists>stops. populate g frameNo = Some stops \<and> sorted (map fst stops) \<and>
    set (map fst stops) \<subseteq> {0..1}"
proof -
  have unf: "populate g frameNo = colorLoop buf (int n) (int (4 * n)) (int (2 * k)) 0 0 0 []"
    using buf len cnt fit by (intro populate_unfold) auto
  have sortedC: "buf ! (4 * a) \<le> buf ! (4 * b)" if "a \<le> b" "b < n" for a b
    using sorted_map_upt [OF sc [unfolded colorStops_def] that] .
  have sortedO: "buf ! (4 * n + 2 * a) \<le> buf ! (4 * n + 2 * b)" if "a \<le> b" "b < k" for a b
    using sorted_map_upt [OF so [unfolded opacityStops_def] that] .
  have rangeC: "0 \<le> buf ! (4 * a) \<and> buf ! (4 * a) \<le> 1" if "a < n" for a
    using rc that by (force simp: colorStops_def subset_iff image_iff)
  have rangeO: "0 \<le> buf ! (4 * n + 2 * a) \<and> buf ! (4 * n + 2 * a) \<le> 1" if "a < k" for a
    using ro that by (force simp: opacityStops_def subset_iff image_iff)
  have "\<exists>stops'. colorLoop buf (int n) (int (4 * n)) (int (2 * k)) (int 0) (int (4 * 0)) (int (2 * 0)) []
      = Some stops' \<and> stopsOk stops'"
    by (rule colorLoop_inv [OF len sortedC rangeC sortedO rangeO])
      (simp_all add: stopsOk_def below_def)
  then show ?thesis
    unfolding unf by (fastforce simp: stopsOk_def)
qed

theorem populate_sorted_witness:
  "length [0, 1, 1, 1, 1 / 2, 0, 0, 0, 1, 1, 0, 1, 0, 1, 1 / 4, 1 / 2, 3 / 4, 0 :: real] = 4 * 3 + 2 * 3 \<and>
   mColorPoints (gradientOf [0, 1, 1, 1, 1 / 2, 0, 0, 0, 1, 1, 0, 1, 0, 1, 1 / 4, 1 / 2, 3 / 4, 0] 3) = int 3 \<and>
   sorted (colorStops [0, 1, 1, 1, 1 / 2, 0, 0, 0, 1, 1, 0, 1, 0, 1, 1 / 4, 1 / 2, 3 / 4, 0] 3) \<and>
   sorted (opacityStops [0, 1, 1, 1, 1 / 2, 0, 0, 0, 1, 1, 0, 1, 0, 1, 1 / 4, 1 / 2, 3 / 4, 0] 3 3) \<and>
   set (colorStops [0, 1, 1, 1, 1 / 2, 0, 0, 0, 1, 1, 0, 1, 0, 1, 1 / 4, 1 / 2, 3 / 4, 0] 3) \<subseteq> {0..1} \<and>
   set (opacityStops [0, 1, 1, 1, 1 / 2, 0, 0, 0, 1, 1, 0, 1, 0, 1, 1 / 4, 1 / 2, 3 / 4, 0] 3 3) \<subseteq> {0..1} \<and>
   (\<exists>stops. populate (gradientOf [0, 1, 1, 1, 1 / 2, 0, 0, 0, 1, 1, 0, 1, 0, 1, 1 / 4, 1 / 2, 3 / 4, 0] 3) 0
       = Some stops \<and> sorted (map fst stops) \<and> set (map fst stops) \<subseteq> {0..1})"
  using populate_sorted [of "gradientOf [0, 1, 1, 1, 1 / 2, 0, 0, 0, 1, 1, 0, 1, 0, 1, 1 / 4, 1 / 2, 3 / 4, 0] 3" 0
      "[0, 1, 1, 1, 1 / 2, 0, 0, 0, 1, 1, 0, 1, 0, 1, 1 / 4, 1 / 2, 3 / 4, 0]" 3 3]
  by (simp add: gradientOf_def constAnim_def colorStops_def opacityStops_def upt_rec)

text \<open>
  C5, as the specification words it, fails for a gradient whose input positions are not
  in order or not in \<open>[0,1]\<close>: the colour stops at 1 and 0 come out in that order, and a
  colour stop at 2 comes out at 2.
\<close>

theorem populate_sorted_counterexample:
  "populate (gradientOf [1, 1, 1, 1, 0, 1, 1, 0] 2) 0 =
     Some [(1, ToColorDefault (LottieColor 1 1 1)), (0, ToColorDefault (LottieColor 1 1 0))] \<and>
   \<not> sorted (map fst [(1 :: real, ToColorDefault (LottieColor 1 1 1)), (0, ToColorDefault (LottieColor 1 1 0))]) \<and>
   populate (gradientOf [2, 1, 1, 1] 1) 0 = Some [(2, ToColorDefault (LottieColor 1 1 1))] \<and>
   (2 :: real) \<notin> {0..1}"
  by (simp add: populate_eval)

section \<open>Properties of the Bezier subdivision\<close>

lemma split_fst:
  "fst (VBezier_split ops b l r) =
     \<lparr>x1 = x1 b, y1 = y1 b,
      x2 = f_half ops (f_add ops (x1 b) (x2 b)),
      y2 = f_half ops (f_add ops (y1 b) (y2 b)),
      x3 = f_half ops (f_add ops (f_half ops (f_add ops (x1 b) (x2 b)))
                                 (f_half ops (f_add ops (x2 b) (x3 b)))),
      y3 = f_half ops (f_add ops (f_half ops (f_add ops (y1 b) (y2 b)))
                                 (f_div2 ops (f_add ops (y2 b) (y3 b)))),
      x4 = f_half ops (f_add ops
             (f_half ops (f_add ops (f_half ops (f_add ops (x1 b) (x2 b)))
                                    (f_half ops (f_add ops (x2 b) (x3 b)))))
             (f_half ops (f_add ops (f_half ops (f_add ops (x3 b) (x4 b)))
                                    (f_half ops (f_add ops (x2 b) (x3 b)))))),
      y4 = f_half ops (f_add ops
             (f_half ops (f_add ops (f_half ops (f_add ops (y1 b) (y2 b)))
                                    (f_div2 ops (f_add ops (y2 b) (y3 b)))))
             (f_half ops (f_add ops (f_half ops (f_add ops (y3 b) (y4 b)))
                                    (f_div2 ops (f_add ops (y2 b) (y3 b))))))\<rparr>"
  unfolding VBezier_split_def Let_def by simp

lemma split_snd:
  "snd (VBezier_split ops b l r) =
     \<lparr>x1 = x4 (fst (VBezier_split ops b l r)), y1 = y4 (fst (VBezier_split ops b l r)),
      x2 = f_half ops (f_add ops (f_half ops (f_add ops (x3 b) (x4 b)))
                                 (f_half ops (f_add ops (x2 b) (x3 b)))),
      y2 = f_half ops (f_add ops (f_half ops (f_add ops (y3 b) (y4 b)))
                                 (f_div2 ops (f_add ops (y2 b) (y3 b)))),
      x3 = f_half ops (f_add ops (x3 b) (x4 b)),
      y3 = f_half ops (f_add ops (y3 b) (y4 b)),
      x4 = x4 b, y4 = y4 b\<rparr>"
  unfolding VBezier_split_def Let_def by simp



text \<open>
  In the exact arithmetic of the reals, which leaves out the rounding and the overflow of
  the program's arithmetic, the halves join at \<open>pointAt (1/2)\<close> and trace the curve; and
  \<open>parameterSplitLeft\<close> subdivides at its parameter \<open>t\<close> in the same sense.
\<close>

lemma split_fst_exact:
  "fst (VBezier_split exactOps b l r) =
     \<lparr>x1 = x1 b, y1 = y1 b,
      x2 = (x1 b + x2 b) * 0.5, y2 = (y1 b + y2 b) * 0.5,
      x3 = ((x1 b + x2 b) * 0.5 + (x2 b + x3 b) * 0.5) * 0.5,
      y3 = ((y1 b + y2 b) * 0.5 + (y2 b + y3 b) / 2) * 0.5,
      x4 = (((x1 b + x2 b) * 0.5 + (x2 b + x3 b) * 0.5) * 0.5
            + ((x3 b + x4 b) * 0.5 + (x2 b + x3 b) * 0.5) * 0.5) * 0.5,
      y4 = (((y1 b + y2 b) * 0.5 + (y2 b + y3 b) / 2) * 0.5
            + ((y3 b + y4 b) * 0.5 + (y2 b + y3 b) / 2) * 0.5) * 0.5\<rparr>"
  unfolding split_fst by (simp add: exactOps_def)

lemma split_snd_exact:
  "snd (VBezier_split exactOps b l r) =
     \<lparr>x1 = (((x1 b + x2 b) * 0.5 + (x2 b + x3 b) * 0.5) * 0.5
            + ((x3 b + x4 b) * 0.5 + (x2 b + x3 b) * 0.5) * 0.5) * 0.5,
      y1 = (((y1 b + y2 b) * 0.5 + (y2 b + y3 b) / 2) * 0.5
            + ((y3 b + y4 b) * 0.5 + (y2 b + y3 b) / 2) * 0.5) * 0.5,
      x2 = ((x3 b + x4 b) * 0.5 + (x2 b + x3 b) * 0.5) * 0.5,
      y2 = ((y3 b + y4 b) * 0.5 + (y2 b + y3 b) / 2) * 0.5,
      x3 = (x3 b + x4 b) * 0.5, y3 = (y3 b + y4 b) * 0.5,
      x4 = x4 b, y4 = y4 b\<rparr>"
  unfolding split_snd split_fst by (simp add: exactOps_def)

lemma pointAt_lerp3:
  "pointAt exactOps b t =
     (lerp3 (x1 b) (x2 b) (x3 b) (x4 b) t, lerp3 (y1 b) (y2 b) (y3 b) (y4 b) t)"
  by (simp add: pointAt_def lerp3_def Let_def exactOps_def)

lemma lerp3_half: "lerp3 p q r s (1 / 2) = (p + 3 * q + 3 * r + s) / 8"
  by (simp add: lerp3_def field_simps)

lemma lerp3_left:
  "lerp3 p ((p + q) / 2) ((p + 2 * q + r) / 4) ((p + 3 * q + 3 * r + s) / 8) u
     = lerp3 p q r s (u / 2)"
  unfolding lerp3_def by (simp add: field_simps)

lemma lerp3_right:
  "lerp3 ((p + 3 * q + 3 * r + s) / 8) ((q + 2 * r + s) / 4) ((r + s) / 2) s u
     = lerp3 p q r s ((1 + u) / 2)"
  unfolding lerp3_def by (simp add: field_simps)

lemma lerp3_left_eq:
  assumes "q' = (p + q) / 2" and "r' = (p + 2 * q + r) / 4"
    and "s' = (p + 3 * q + 3 * r + s) / 8"
  shows "lerp3 p q' r' s' u = lerp3 p q r s (u / 2)"
  unfolding assms by (rule lerp3_left)

lemma lerp3_right_eq:
  assumes "p' = (p + 3 * q + 3 * r + s) / 8" and "q' = (q + 2 * r + s) / 4"
    and "r' = (r + s) / 2"
  shows "lerp3 p' q' r' s u = lerp3 p q r s ((1 + u) / 2)"
  unfolding assms by (rule lerp3_right)

lemma split_midpoint_exact:
  "pt1 (fst (VBezier_split exactOps b l r)) = pt1 b \<and>
   pt4 (fst (VBezier_split exactOps b l r)) = pointAt exactOps b (1 / 2) \<and>
   pt1 (snd (VBezier_split exactOps b l r)) = pointAt exactOps b (1 / 2) \<and>
   pt4 (snd (VBezier_split exactOps b l r)) = pt4 b \<and>
   pointAt exactOps (fst (VBezier_split exactOps b l r)) s = pointAt exactOps b (s / 2) \<and>
   pointAt exactOps (snd (VBezier_split exactOps b l r)) s = pointAt exactOps b ((1 + s) / 2)"
proof (intro conjI)
  show "pt1 (fst (VBezier_split exactOps b l r)) = pt1 b"
    by (simp add: split_fst_exact pt1_def)
  show "pt4 (snd (VBezier_split exactOps b l r)) = pt4 b"
    by (simp add: split_snd_exact pt4_def)
  show "pt4 (fst (VBezier_split exactOps b l r)) = pointAt exactOps b (1 / 2)"
    by (simp add: split_fst_exact pt4_def pointAt_lerp3 lerp3_half) (simp add: field_simps)
  show "pt1 (snd (VBezier_split exactOps b l r)) = pointAt exactOps b (1 / 2)"
    by (simp add: split_snd_exact pt1_def pointAt_lerp3 lerp3_half) (simp add: field_simps)
  have "lerp3 (x1 (fst (VBezier_split exactOps b l r))) (x2 (fst (VBezier_split exactOps b l r)))
          (x3 (fst (VBezier_split exactOps b l r))) (x4 (fst (VBezier_split exactOps b l r))) s
        = lerp3 (x1 b) (x2 b) (x3 b) (x4 b) (s / 2)"
    unfolding split_fst_exact by (simp only: VBezier.simps, rule lerp3_left_eq) (simp_all add: field_simps)
  moreover have "lerp3 (y1 (fst (VBezier_split exactOps b l r))) (y2 (fst (VBezier_split exactOps b l r)))
          (y3 (fst (VBezier_split exactOps b l r))) (y4 (fst (VBezier_split exactOps b l r))) s
        = lerp3 (y1 b) (y2 b) (y3 b) (y4 b) (s / 2)"
    unfolding split_fst_exact by (simp only: VBezier.simps, rule lerp3_left_eq) (simp_all add: field_simps)
  ultimately show "pointAt exactOps (fst (VBezier_split exactOps b l r)) s = pointAt exactOps b (s / 2)"
    by (simp only: pointAt_lerp3)
  have "lerp3 (x1 (snd (VBezier_split exactOps b l r))) (x2 (snd (VBezier_split exactOps b l r)))
          (x3 (snd (VBezier_split exactOps b l r))) (x4 (snd (VBezier_split exactOps b l r))) s
        = lerp3 (x1 b) (x2 b) (x3 b) (x4 b) ((1 + s) / 2)"
    unfolding split_snd_exact by (simp only: VBezier.simps, rule lerp3_right_eq) (simp_all add: field_simps)
  moreover have "lerp3 (y1 (snd (VBezier_split exactOps b l r))) (y2 (snd (VBezier_split exactOps b l r)))
          (y3 (snd (VBezier_split exactOps b l r))) (y4 (snd (VBezier_split exactOps b l r))) s
        = lerp3 (y1 b) (y2 b) (y3 b) (y4 b) ((1 + s) / 2)"
    unfolding split_snd_exact by (simp only: VBezier.simps, rule lerp3_right_eq) (simp_all add: field_simps)
  ultimately show "pointAt exactOps (snd (VBezier_split exactOps b l r)) s = pointAt exactOps b ((1 + s) / 2)"
    by (simp only: pointAt_lerp3)
qed

lemma parameterSplitLeft_snd:
  "snd (parameterSplitLeft exactOps b t l) =
     \<lparr>x1 = x1 b, y1 = y1 b,
      x2 = x1 b + t * (x2 b - x1 b), y2 = y1 b + t * (y2 b - y1 b),
      x3 = x1 b + t * (x2 b - x1 b) + t * (x2 b + t * (x3 b - x2 b) - (x1 b + t * (x2 b - x1 b))),
      y3 = y1 b + t * (y2 b - y1 b) + t * (y2 b + t * (y3 b - y2 b) - (y1 b + t * (y2 b - y1 b))),
      x4 = x1 (fst (parameterSplitLeft exactOps b t l)), y4 = y1 (fst (parameterSplitLeft exactOps b t l))\<rparr>"
  by (simp add: parameterSplitLeft_def Let_def exactOps_def)

lemma parameterSplitLeft_fst:
  "fst (parameterSplitLeft exactOps b t l) =
     \<lparr>x1 = x1 b + t * (x2 b - x1 b) + t * (x2 b + t * (x3 b - x2 b) - (x1 b + t * (x2 b - x1 b)))
             + t * (x2 b + t * (x3 b - x2 b) + t * (x3 b + t * (x4 b - x3 b) - (x2 b + t * (x3 b - x2 b)))
                    - (x1 b + t * (x2 b - x1 b)
                       + t * (x2 b + t * (x3 b - x2 b) - (x1 b + t * (x2 b - x1 b))))),
       y1 = y1 b + t * (y2 b - y1 b) + t * (y2 b + t * (y3 b - y2 b) - (y1 b + t * (y2 b - y1 b)))
             + t * (y2 b + t * (y3 b - y2 b) + t * (y3 b + t * (y4 b - y3 b) - (y2 b + t * (y3 b - y2 b)))
                    - (y1 b + t * (y2 b - y1 b)
                       + t * (y2 b + t * (y3 b - y2 b) - (y1 b + t * (y2 b - y1 b))))),
       x2 = x2 b + t * (x3 b - x2 b) + t * (x3 b + t * (x4 b - x3 b) - (x2 b + t * (x3 b - x2 b))),
       y2 = y2 b + t * (y3 b - y2 b) + t * (y3 b + t * (y4 b - y3 b) - (y2 b + t * (y3 b - y2 b))),
       x3 = x3 b + t * (x4 b - x3 b), y3 = y3 b + t * (y4 b - y3 b),
       x4 = x4 b, y4 = y4 b\<rparr>"
  by (cases b) (simp add: parameterSplitLeft_def Let_def exactOps_def)

lemma lerp3_poly:
  "lerp3 p q r s t = p + 3 * (q - p) * t + 3 * (p - 2 * q + r) * t ^ 2 + (s - 3 * r + 3 * q - p) * t ^ 3"
  unfolding lerp3_def by (simp add: algebra_simps power2_eq_square power3_eq_cube)

lemma lerp3_param_left:
  assumes "q' = p + t * (q - p)"
    and "r' = p + t * (q - p) + t * (q + t * (r - q) - (p + t * (q - p)))"
    and "s' = lerp3 p q r s t"
  shows "lerp3 p q' r' s' u = lerp3 p q r s (t * u)"
  unfolding assms lerp3_poly by (simp add: algebra_simps power2_eq_square power3_eq_cube)

lemma lerp3_param_right:
  assumes "p' = lerp3 p q r s t"
    and "q' = q + t * (r - q) + t * (r + t * (s - r) - (q + t * (r - q)))"
    and "r' = r + t * (s - r)"
  shows "lerp3 p' q' r' s u = lerp3 p q r s (t + (1 - t) * u)"
  unfolding assms lerp3_poly by (simp add: algebra_simps power2_eq_square power3_eq_cube)

lemma lerp3_join:
  "p + t * (q - p) + t * (q + t * (r - q) - (p + t * (q - p)))
     + t * (q + t * (r - q) + t * (r + t * (s - r) - (q + t * (r - q)))
            - (p + t * (q - p) + t * (q + t * (r - q) - (p + t * (q - p)))))
   = lerp3 p q r s t"
  unfolding lerp3_poly by (simp add: algebra_simps power2_eq_square power3_eq_cube)

lemma parameterSplitLeft_exact:
  "pt1 (snd (parameterSplitLeft exactOps b t l)) = pt1 b \<and>
   pt4 (snd (parameterSplitLeft exactOps b t l)) = pointAt exactOps b t \<and>
   pt1 (fst (parameterSplitLeft exactOps b t l)) = pointAt exactOps b t \<and>
   pt4 (fst (parameterSplitLeft exactOps b t l)) = pt4 b \<and>
   pointAt exactOps (snd (parameterSplitLeft exactOps b t l)) s = pointAt exactOps b (t * s) \<and>
   pointAt exactOps (fst (parameterSplitLeft exactOps b t l)) s = pointAt exactOps b (t + (1 - t) * s)"
proof (intro conjI)
  have fx: "x1 (fst (parameterSplitLeft exactOps b t l)) = lerp3 (x1 b) (x2 b) (x3 b) (x4 b) t"
    unfolding parameterSplitLeft_fst by (simp only: VBezier.simps lerp3_join)
  have fy: "y1 (fst (parameterSplitLeft exactOps b t l)) = lerp3 (y1 b) (y2 b) (y3 b) (y4 b) t"
    unfolding parameterSplitLeft_fst by (simp only: VBezier.simps lerp3_join)
  show "pt1 (snd (parameterSplitLeft exactOps b t l)) = pt1 b"
    by (simp add: parameterSplitLeft_snd pt1_def)
  show "pt4 (fst (parameterSplitLeft exactOps b t l)) = pt4 b"
    by (simp add: parameterSplitLeft_fst pt4_def)
  show "pt1 (fst (parameterSplitLeft exactOps b t l)) = pointAt exactOps b t"
    by (simp only: pt1_def fx fy pointAt_lerp3)
  show "pt4 (snd (parameterSplitLeft exactOps b t l)) = pointAt exactOps b t"
    unfolding pt4_def parameterSplitLeft_snd by (simp only: VBezier.simps fx fy pointAt_lerp3)
  have "lerp3 (x1 (snd (parameterSplitLeft exactOps b t l))) (x2 (snd (parameterSplitLeft exactOps b t l)))
          (x3 (snd (parameterSplitLeft exactOps b t l))) (x4 (snd (parameterSplitLeft exactOps b t l))) s
        = lerp3 (x1 b) (x2 b) (x3 b) (x4 b) (t * s)"
    unfolding parameterSplitLeft_snd
    by (simp only: VBezier.simps fx, rule lerp3_param_left) (rule refl)+
  moreover have "lerp3 (y1 (snd (parameterSplitLeft exactOps b t l))) (y2 (snd (parameterSplitLeft exactOps b t l)))
          (y3 (snd (parameterSplitLeft exactOps b t l))) (y4 (snd (parameterSplitLeft exactOps b t l))) s
        = lerp3 (y1 b) (y2 b) (y3 b) (y4 b) (t * s)"
    unfolding parameterSplitLeft_snd
    by (simp only: VBezier.simps fy, rule lerp3_param_left) (rule refl)+
  ultimately show "pointAt exactOps (snd (parameterSplitLeft exactOps b t l)) s = pointAt exactOps b (t * s)"
    by (simp only: pointAt_lerp3)
  have "lerp3 (x1 (fst (parameterSplitLeft exactOps b t l))) (x2 (fst (parameterSplitLeft exactOps b t l)))
          (x3 (fst (parameterSplitLeft exactOps b t l))) (x4 (fst (parameterSplitLeft exactOps b t l))) s
        = lerp3 (x1 b) (x2 b) (x3 b) (x4 b) (t + (1 - t) * s)"
    unfolding fx unfolding parameterSplitLeft_fst
    by (simp only: VBezier.simps, rule lerp3_param_right) (rule refl)+
  moreover have "lerp3 (y1 (fst (parameterSplitLeft exactOps b t l))) (y2 (fst (parameterSplitLeft exactOps b t l)))
          (y3 (fst (parameterSplitLeft exactOps b t l))) (y4 (fst (parameterSplitLeft exactOps b t l))) s
        = lerp3 (y1 b) (y2 b) (y3 b) (y4 b) (t + (1 - t) * s)"
    unfolding fy unfolding parameterSplitLeft_fst
    by (simp only: VBezier.simps, rule lerp3_param_right) (rule refl)+
  ultimately show "pointAt exactOps (fst (parameterSplitLeft exactOps b t l)) s = pointAt exactOps b (t + (1 - t) * s)"
    by (simp only: pointAt_lerp3)
qed

end
